theory Spec2Isabelle
  imports Main "HOL-Library.AList"
begin

section \<open>Values, dictionaries and documents\<close>

text \<open>
  The service of \<^verbatim>\<open>src/app.py\<close> binds a request body to a pydantic model, turns the
  model into a dictionary, encodes the dictionary as JSON and hands it to one collection
  of a document store. A \<^verbatim>\<open>datetime\<close> is represented by its ISO-8601 text, which is
  what \<^verbatim>\<open>jsonable_encoder\<close> stores for it. A dictionary is an association list: its
  order is the insertion order of Python and of a stored document.
\<close>

type_synonym datetime = string

datatype pyval = PyNone | PyBool bool | PyStr string | PyDatetime datetime

datatype json = JNull | JBool bool | JStr string

type_synonym pydict = "(string \<times> pyval) list"

type_synonym document = "(string \<times> json) list"

type_synonym collection = "document list"

fun jsonable_encoder_value :: "pyval \<Rightarrow> json" where
  "jsonable_encoder_value PyNone = JNull"
| "jsonable_encoder_value (PyBool b) = JBool b"
| "jsonable_encoder_value (PyStr s) = JStr s"
| "jsonable_encoder_value (PyDatetime d) = JStr d"

definition jsonable_encoder :: "pydict \<Rightarrow> document" where
  "jsonable_encoder d = map (\<lambda>(k, v). (k, jsonable_encoder_value v)) d"

text \<open>Python's \<^verbatim>\<open>not v\<close> on the values a model field can hold.\<close>

fun py_not :: "pyval \<Rightarrow> bool" where
  "py_not PyNone = True"
| "py_not (PyBool b) = (\<not> b)"
| "py_not (PyStr s) = (s = [])"
| "py_not (PyDatetime d) = False"

datatype error = HTTPException nat string | KeyError string | DuplicateKeyError | InvalidDocument

text \<open>\<^verbatim>\<open>d[k]\<close> on a dictionary raises \<^verbatim>\<open>KeyError\<close> for a missing key.\<close>

definition getitem :: "pydict \<Rightarrow> string \<Rightarrow> error + pyval" where
  "getitem d k = (case map_of d k of None \<Rightarrow> Inl (KeyError k) | Some v \<Rightarrow> Inr v)"

section \<open>The pydantic models\<close>

text \<open>
  \<^verbatim>\<open>NoteModel\<close> (lines 35-41) and \<^verbatim>\<open>UpdateNoteModel\<close> (lines 59-64). The field
  \<^verbatim>\<open>id\<close> of a note holds the text of its ObjectId, as \<^verbatim>\<open>json_encoders\<close> renders it.
\<close>

record NoteModel =
  n_id :: string
  n_created :: "datetime option"
  n_updated :: "datetime option"
  n_text :: string
  n_author :: string
  n_in_trash :: bool

record UpdateNoteModel =
  u_created :: "datetime option"
  u_updated :: "datetime option"
  u_text :: "string option"
  u_author :: "string option"
  u_in_trash :: "bool option"

text \<open>
  A field of a JSON request body is left out, given as \<^verbatim>\<open>null\<close>, or given a value of
  the field's type (the binding layer rejects anything else before the handler runs).
\<close>

datatype 'a supplied = Omitted | Null | Value 'a

record NoteBody =
  b_id :: "string option"
  b_created :: "datetime supplied"
  b_updated :: "datetime supplied"
  b_text :: string
  b_author :: string
  b_in_trash :: bool

record UpdateBody =
  ub_created :: "datetime supplied"
  ub_updated :: "datetime supplied"
  ub_text :: "string supplied"
  ub_author :: "string supplied"
  ub_in_trash :: "bool supplied"

text \<open>
  What the class body of \<^verbatim>\<open>NoteModel\<close> computes when the module is imported: line 37
  calls \<^verbatim>\<open>datetime.utcnow()\<close> there and keeps the result as the default of
  \<^verbatim>\<open>created\<close>. Line 36 instead registers \<^verbatim>\<open>PyObjectId\<close> as a factory that runs for
  each model.
\<close>

record process =
  NoteModel_created_default :: datetime

definition import_app :: "datetime \<Rightarrow> process" where
  "import_app utcnow_at_import = \<lparr>NoteModel_created_default = utcnow_at_import\<rparr>"

text \<open>What a request can read from outside: the clock and the next fresh ObjectId.\<close>

record request_env =
  utcnow :: datetime
  new_ObjectId :: string

text \<open>
  Binding a body to \<^verbatim>\<open>NoteModel\<close>: a field left out takes its default; an
  \<^verbatim>\<open>Optional\<close> field given as \<^verbatim>\<open>null\<close> is \<^verbatim>\<open>None\<close>.
\<close>

definition NoteModel_validate :: "process \<Rightarrow> request_env \<Rightarrow> NoteBody \<Rightarrow> NoteModel" where
  "NoteModel_validate p env b =
     \<lparr>n_id = (case b_id b of None \<Rightarrow> new_ObjectId env | Some i \<Rightarrow> i),
      n_created = (case b_created b of
                     Omitted \<Rightarrow> Some (NoteModel_created_default p)
                   | Null \<Rightarrow> None
                   | Value d \<Rightarrow> Some d),
      n_updated = (case b_updated b of Omitted \<Rightarrow> None | Null \<Rightarrow> None | Value d \<Rightarrow> Some d),
      n_text = b_text b,
      n_author = b_author b,
      n_in_trash = b_in_trash b\<rparr>"

text \<open>
  Binding a body to \<^verbatim>\<open>UpdateNoteModel\<close>: every field is \<^verbatim>\<open>Optional\<close> with no
  default, so a field left out and a field given as \<^verbatim>\<open>null\<close> are both \<^verbatim>\<open>None\<close>.
\<close>

fun optional_field :: "'a supplied \<Rightarrow> 'a option" where
  "optional_field Omitted = None"
| "optional_field Null = None"
| "optional_field (Value v) = Some v"

definition UpdateNoteModel_validate :: "UpdateBody \<Rightarrow> UpdateNoteModel" where
  "UpdateNoteModel_validate b =
     \<lparr>u_created = optional_field (ub_created b),
      u_updated = optional_field (ub_updated b),
      u_text = optional_field (ub_text b),
      u_author = optional_field (ub_author b),
      u_in_trash = optional_field (ub_in_trash b)\<rparr>"

definition py_optional :: "('a \<Rightarrow> pyval) \<Rightarrow> 'a option \<Rightarrow> pyval" where
  "py_optional f x = (case x of None \<Rightarrow> PyNone | Some v \<Rightarrow> f v)"

text \<open>\<^verbatim>\<open>note.dict()\<close>: every declared field, in declaration order, \<^verbatim>\<open>None\<close> included.\<close>

definition dict_UpdateNoteModel :: "UpdateNoteModel \<Rightarrow> pydict" where
  "dict_UpdateNoteModel m =
     [(''created'', py_optional PyDatetime (u_created m)),
      (''updated'', py_optional PyDatetime (u_updated m)),
      (''text'', py_optional PyStr (u_text m)),
      (''author'', py_optional PyStr (u_author m)),
      (''in_trash'', py_optional PyBool (u_in_trash m))]"

text \<open>\<^verbatim>\<open>jsonable_encoder(note)\<close> of a \<^verbatim>\<open>NoteModel\<close> writes the id under its alias.\<close>

definition dict_NoteModel :: "NoteModel \<Rightarrow> pydict" where
  "dict_NoteModel m =
     [(''_id'', PyStr (n_id m)),
      (''created'', py_optional PyDatetime (n_created m)),
      (''updated'', py_optional PyDatetime (n_updated m)),
      (''text'', PyStr (n_text m)),
      (''author'', PyStr (n_author m)),
      (''in_trash'', PyBool (n_in_trash m))]"

section \<open>The document store\<close>

text \<open>
  The collection \<^verbatim>\<open>db["notes"]\<close> is the list of its documents in natural order. The
  driver's calls the handlers make are modelled with the store's documented behaviour:
  a query document matches a stored document that holds each of its fields with an equal
  value; \<^verbatim>\<open>find_one\<close> gives the first match; \<^verbatim>\<open>update_one\<close> with \<^verbatim>\<open>$set\<close> rewrites
  the first match and counts it as modified only when it changed; \<^verbatim>\<open>delete_one\<close>
  removes the first match; \<^verbatim>\<open>insert_one\<close> refuses a second document with a stored
  \<^verbatim>\<open>_id\<close>.
\<close>

definition matches :: "document \<Rightarrow> document \<Rightarrow> bool" where
  "matches q d = list_all (\<lambda>(k, v). map_of d k = Some v) q"

definition find_one :: "document \<Rightarrow> collection \<Rightarrow> document option" where
  "find_one q c = List.find (matches q) c"

definition find_docs :: "document \<Rightarrow> collection \<Rightarrow> document list" where
  "find_docs q c = filter (matches q) c"

definition to_list :: "nat \<Rightarrow> document list \<Rightarrow> document list" where
  "to_list n cursor = take n cursor"

definition apply_set :: "document \<Rightarrow> document \<Rightarrow> document" where
  "apply_set s d = fold (\<lambda>(k, v). AList.update k v) s d"

record UpdateResult =
  matched_count :: nat
  modified_count :: nat

fun update_one :: "document \<Rightarrow> document \<Rightarrow> collection \<Rightarrow> UpdateResult \<times> collection" where
  "update_one q s [] = (\<lparr>matched_count = 0, modified_count = 0\<rparr>, [])"
| "update_one q s (d # ds) =
     (if matches q d
      then (\<lparr>matched_count = 1, modified_count = (if apply_set s d = d then 0 else 1)\<rparr>,
            apply_set s d # ds)
      else (case update_one q s ds of (r, ds') \<Rightarrow> (r, d # ds')))"

record DeleteResult =
  deleted_count :: nat

fun delete_one :: "document \<Rightarrow> collection \<Rightarrow> DeleteResult \<times> collection" where
  "delete_one q [] = (\<lparr>deleted_count = 0\<rparr>, [])"
| "delete_one q (d # ds) =
     (if matches q d then (\<lparr>deleted_count = 1\<rparr>, ds)
      else (case delete_one q ds of (r, ds') \<Rightarrow> (r, d # ds')))"

record InsertOneResult =
  inserted_id :: json

text \<open>
  The handler always inserts a document with an \<^verbatim>\<open>_id\<close>; a document without one (for
  which the driver would make an id up) is refused here.
\<close>

definition insert_one :: "document \<Rightarrow> collection \<Rightarrow> error + (InsertOneResult \<times> collection)" where
  "insert_one d c =
     (case map_of d ''_id'' of
        None \<Rightarrow> Inl InvalidDocument
      | Some i \<Rightarrow>
          if find_one [(''_id'', i)] c \<noteq> None then Inl DuplicateKeyError
          else Inr (\<lparr>inserted_id = i\<rparr>, c @ [d]))"

section \<open>The handlers\<close>

datatype content = NoContent | Note document | Notes "document list"

datatype JSONResponse = JSONResponse nat content

type_synonym reply = "(error + JSONResponse) \<times> collection"

definition not_found :: "string \<Rightarrow> error" where
  "not_found i = HTTPException 404 (''Note '' @ i @ '' not found'')"

text \<open>Lines 111-114.\<close>

definition show_note :: "string \<Rightarrow> collection \<Rightarrow> reply" where
  "show_note i db =
     (case find_one [(''_id'', JStr i)] db of
        Some note \<Rightarrow> (Inr (JSONResponse 200 (Note note)), db)
      | None \<Rightarrow> (Inl (not_found i), db))"

text \<open>Lines 161-165. The 204 response is built without a content.\<close>

definition delete_note :: "string \<Rightarrow> collection \<Rightarrow> reply" where
  "delete_note i db =
     (case delete_one [(''_id'', JStr i)] db of
        (delete_result, db') \<Rightarrow>
          if deleted_count delete_result = 1 then (Inr (JSONResponse 204 NoContent), db')
          else (Inl (not_found i), db'))"

text \<open>Lines 82-86. A failure of the store is not caught by the handler.\<close>

definition create_note :: "NoteModel \<Rightarrow> collection \<Rightarrow> reply" where
  "create_note note db =
     (let note' = jsonable_encoder (dict_NoteModel note) in
      case insert_one note' db of
        Inl e \<Rightarrow> (Inl e, db)
      | Inr (new_note, db') \<Rightarrow>
          (case find_one [(''_id'', inserted_id new_note)] db' of
             Some created_note \<Rightarrow> (Inr (JSONResponse 201 (Note created_note)), db')
           | None \<Rightarrow> (Inr (JSONResponse 201 NoContent), db')))"

text \<open>The route \<^verbatim>\<open>POST /\<close>: the body is bound to the model, then the handler runs.\<close>

definition post_note :: "process \<Rightarrow> request_env \<Rightarrow> NoteBody \<Rightarrow> collection \<Rightarrow> reply" where
  "post_note p env b db = create_note (NoteModel_validate p env b) db"

text \<open>Lines 93-95 and 102-104.\<close>

definition list_all_notes :: "collection \<Rightarrow> reply" where
  "list_all_notes db =
     (let notes = to_list 1000 (find_docs [(''in_trash'', JBool False)] db)
      in (Inr (JSONResponse 200 (Notes notes)), db))"

definition list_deleted_notes :: "collection \<Rightarrow> reply" where
  "list_deleted_notes db =
     (let notes = to_list 1000 (find_docs [(''in_trash'', JBool True)] db)
      in (Inr (JSONResponse 200 (Notes notes)), db))"

text \<open>Line 120: the fields of the body that are not \<^verbatim>\<open>None\<close>, encoded.\<close>

definition update_fields :: "UpdateNoteModel \<Rightarrow> document" where
  "update_fields note =
     jsonable_encoder (filter (\<lambda>(k, v). v \<noteq> PyNone) (dict_UpdateNoteModel note))"

text \<open>Lines 128-130, which every path of \<^verbatim>\<open>update_note\<close> that has not returned reaches.\<close>

definition existing_note :: "string \<Rightarrow> collection \<Rightarrow> reply" where
  "existing_note i db =
     (case find_one [(''_id'', JStr i)] db of
        Some existing \<Rightarrow> (Inr (JSONResponse 200 (Note existing)), db)
      | None \<Rightarrow> (Inl (not_found i), db))"

text \<open>Lines 119-130.\<close>

definition update_note :: "string \<Rightarrow> UpdateNoteModel \<Rightarrow> collection \<Rightarrow> reply" where
  "update_note i note db =
     (let note' = update_fields note in
      if length note' \<ge> 1 then
        (case update_one [(''_id'', JStr i)] note' db of
           (update_result, db') \<Rightarrow>
             if modified_count update_result = 1 then
               (case find_one [(''_id'', JStr i)] db' of
                  Some updated_note \<Rightarrow> (Inr (JSONResponse 200 (Note updated_note)), db')
                | None \<Rightarrow> existing_note i db')
             else existing_note i db')
      else existing_note i db)"

text \<open>Lines 135-143.\<close>

definition remove_note :: "string \<Rightarrow> UpdateNoteModel \<Rightarrow> collection \<Rightarrow> reply" where
  "remove_note i note db =
     (let note' = map (\<lambda>(k, v). (k, v)) (dict_UpdateNoteModel note) in
      case getitem note' ''in_trash'' of
        Inl e \<Rightarrow> (Inl e, db)
      | Inr flag \<Rightarrow>
          if py_not flag then
            (case update_one [(''_id'', JStr i)] [(''in_trash'', JBool True)] db of
               (update_result, db') \<Rightarrow>
                 (case find_one [(''_id'', JStr i)] db' of
                    Some updated_note \<Rightarrow> (Inr (JSONResponse 200 (Note updated_note)), db')
                  | None \<Rightarrow> (Inl (not_found i), db')))
          else (Inl (not_found i), db))"

text \<open>Lines 148-156.\<close>

definition move_note :: "string \<Rightarrow> UpdateNoteModel \<Rightarrow> collection \<Rightarrow> reply" where
  "move_note i note db =
     (let note' = map (\<lambda>(k, v). (k, v)) (dict_UpdateNoteModel note) in
      case getitem note' ''in_trash'' of
        Inl e \<Rightarrow> (Inl e, db)
      | Inr flag \<Rightarrow>
          if py_not flag then
            (case update_one [(''_id'', JStr i)] [(''in_trash'', JBool False)] db of
               (update_result, db') \<Rightarrow>
                 (case find_one [(''_id'', JStr i)] db' of
                    Some updated_note \<Rightarrow> (Inr (JSONResponse 200 (Note updated_note)), db')
                  | None \<Rightarrow> (Inl (not_found i), db')))
          else (Inl (not_found i), db))"

text \<open>The routes \<^verbatim>\<open>PUT /{id}\<close>, \<^verbatim>\<open>PUT /to_trash/{id}\<close> and \<^verbatim>\<open>PUT /from_trash/{id}\<close>.\<close>

definition put_note :: "string \<Rightarrow> UpdateBody \<Rightarrow> collection \<Rightarrow> reply" where
  "put_note i b db = update_note i (UpdateNoteModel_validate b) db"

definition put_to_trash :: "string \<Rightarrow> UpdateBody \<Rightarrow> collection \<Rightarrow> reply" where
  "put_to_trash i b db = remove_note i (UpdateNoteModel_validate b) db"

definition put_from_trash :: "string \<Rightarrow> UpdateBody \<Rightarrow> collection \<Rightarrow> reply" where
  "put_from_trash i b db = move_note i (UpdateNoteModel_validate b) db"

section \<open>Stored states\<close>

text \<open>
  The store keeps the \<^verbatim>\<open>_id\<close> of its documents unique, and every document has one.
  Every note the service stores has a boolean \<^verbatim>\<open>in_trash\<close>: the field is required on
  creation and no update can write anything but a boolean to it.
\<close>

definition doc_id :: "document \<Rightarrow> json option" where
  "doc_id d = map_of d ''_id''"

definition unique_ids :: "collection \<Rightarrow> bool" where
  "unique_ids c = (list_all (\<lambda>d. doc_id d \<noteq> None) c \<and> distinct (map doc_id c))"

definition has_flag :: "document \<Rightarrow> bool" where
  "has_flag d =
     (map_of d ''in_trash'' = Some (JBool False) \<or> map_of d ''in_trash'' = Some (JBool True))"

definition stored_notes :: "collection \<Rightarrow> bool" where
  "stored_notes c = (unique_ids c \<and> list_all has_flag c)"

text \<open>The notes a reply lists, and their ids.\<close>

fun listed :: "reply \<Rightarrow> document list" where
  "listed (Inr (JSONResponse st (Notes ns)), db) = ns"
| "listed r = []"

definition ids :: "document list \<Rightarrow> json option set" where
  "ids ns = set (map doc_id ns)"

section \<open>Sample data\<close>

definition sample_note :: "string \<Rightarrow> bool \<Rightarrow> document" where
  "sample_note i flag =
     jsonable_encoder (dict_NoteModel
       \<lparr>n_id = i, n_created = Some ''2021-09-20T00:02:03'', n_updated = None,
        n_text = ''hi'', n_author = ''a'', n_in_trash = flag\<rparr>)"

definition two_notes :: collection where
  "two_notes = [sample_note ''x'' False, sample_note ''y'' True]"

definition no_fields :: UpdateNoteModel where
  "no_fields = \<lparr>u_created = None, u_updated = None, u_text = None, u_author = None,
                u_in_trash = None\<rparr>"

definition text_only :: "string \<Rightarrow> UpdateNoteModel" where
  "text_only t = \<lparr>u_created = None, u_updated = None, u_text = Some t, u_author = None,
                  u_in_trash = None\<rparr>"

definition flag_only :: "bool \<Rightarrow> UpdateNoteModel" where
  "flag_only b = \<lparr>u_created = None, u_updated = None, u_text = None, u_author = None,
                  u_in_trash = Some b\<rparr>"

text \<open>A body with its \<^verbatim>\<open>null\<close> fields left out instead; the body of nothing but
  \<^verbatim>\<open>null\<close>s; the empty body.\<close>

fun null_as_omitted :: "'a supplied \<Rightarrow> 'a supplied" where
  "null_as_omitted Null = Omitted"
| "null_as_omitted x = x"

definition without_nulls :: "UpdateBody \<Rightarrow> UpdateBody" where
  "without_nulls b =
     \<lparr>ub_created = null_as_omitted (ub_created b),
      ub_updated = null_as_omitted (ub_updated b),
      ub_text = null_as_omitted (ub_text b),
      ub_author = null_as_omitted (ub_author b),
      ub_in_trash = null_as_omitted (ub_in_trash b)\<rparr>"

definition all_null :: UpdateBody where
  "all_null = \<lparr>ub_created = Null, ub_updated = Null, ub_text = Null, ub_author = Null,
               ub_in_trash = Null\<rparr>"

definition empty_body :: UpdateBody where
  "empty_body = \<lparr>ub_created = Omitted, ub_updated = Omitted, ub_text = Omitted,
                 ub_author = Omitted, ub_in_trash = Omitted\<rparr>"

text \<open>\<^verbatim>\<open>n\<close> active notes, with the ids \<^verbatim>\<open>""\<close>, \<^verbatim>\<open>"n"\<close>, \<^verbatim>\<open>"nn"\<close>, ...; 1001 of them.\<close>

definition active_notes :: "nat \<Rightarrow> collection" where
  "active_notes n = map (\<lambda>k. sample_note (replicate k CHR ''n'') False) [0..<n]"

definition many_notes :: collection where
  "many_notes = active_notes 1001"

text \<open>A body for \<^verbatim>\<open>POST /\<close> that gives the required fields only.\<close>

definition note_body :: NoteBody where
  "note_body = \<lparr>b_id = None, b_created = Omitted, b_updated = Omitted, b_text = ''hi'',
                b_author = ''a'', b_in_trash = False\<rparr>"

section \<open>Facts about the store\<close>


lemma matches_id: "matches [(''_id'', v)] d = (doc_id d = Some v)"
  by (simp add: matches_def doc_id_def)

lemma find_one_id_None:
  "(find_one [(''_id'', v)] c = None) = (Some v \<notin> set (map doc_id c))"
  by (induction c) (auto simp: find_one_def matches_id)

lemma find_one_id_Some:
  "find_one [(''_id'', v)] c = Some d \<Longrightarrow> d \<in> set c \<and> doc_id d = Some v"
  by (induction c) (auto simp: find_one_def matches_id split: if_splits)

lemma delete_one_count:
  "deleted_count (fst (delete_one q c)) = (if find_one q c = None then 0 else 1)"
  by (induction c) (auto simp: find_one_def split: prod.splits)

lemma delete_one_miss: "find_one q c = None \<Longrightarrow> snd (delete_one q c) = c"
  by (induction c) (auto simp: find_one_def split: prod.splits if_splits)

lemma find_one_matches: "find_one q c = Some d \<Longrightarrow> matches q d \<and> d \<in> set c"
  by (induction c) (auto simp: find_one_def split: if_splits)

lemma delete_one_hit:
  "find_one q c = Some d \<Longrightarrow> snd (delete_one q c) = remove1 d c"
proof (induction c)
  case Nil
  then show ?case by (simp add: find_one_def)
next
  case (Cons a c)
  show ?case
  proof (cases "matches q a")
    case True
    with Cons.prems show ?thesis by (simp add: find_one_def)
  next
    case False
    with Cons.prems have rest: "find_one q c = Some d" by (simp add: find_one_def)
    then have "matches q d" by (simp add: find_one_matches)
    with False have "a \<noteq> d" by auto
    with False Cons.IH [OF rest] show ?thesis by (simp add: case_prod_unfold)
  qed
qed

lemma delete_one_length:
  "find_one q c = Some d \<Longrightarrow> Suc (length (snd (delete_one q c))) = length c"
  by (induction c) (auto simp: find_one_def split: prod.splits if_splits)

lemma delete_one_ids:
  "map doc_id (snd (delete_one [(''_id'', v)] c)) = remove1 (Some v) (map doc_id c)"
  by (induction c) (auto simp: matches_id split: prod.splits)

lemma delete_one_subset: "set (snd (delete_one q c)) \<subseteq> set c"
  by (induction c) (auto split: prod.splits)

lemma unique_ids_delete_one:
  "unique_ids c \<Longrightarrow> unique_ids (snd (delete_one q c))"
proof (induction c)
  case Nil
  then show ?case by simp
next
  case (Cons a c)
  then have tl: "unique_ids (snd (delete_one q c))" and new: "doc_id a \<notin> doc_id ` set c"
    by (auto simp: unique_ids_def)
  from new delete_one_subset [of q c] have "doc_id a \<notin> doc_id ` set (snd (delete_one q c))"
    by auto
  with tl Cons.prems show ?case
    by (auto simp: unique_ids_def split: prod.splits)
qed

lemma sample_note_id: "doc_id (sample_note i flag) = Some (JStr i)"
  by (simp add: doc_id_def sample_note_def jsonable_encoder_def dict_NoteModel_def)

lemma sample_note_flag: "map_of (sample_note i flag) ''in_trash'' = Some (JBool flag)"
  by (simp add: sample_note_def jsonable_encoder_def dict_NoteModel_def py_optional_def)

lemma unique_ids_two_notes: "unique_ids two_notes"
  by (simp add: unique_ids_def two_notes_def sample_note_id)

lemma apply_set_map_of: "map_of (apply_set s d) = map_of d ++ map_of (rev s)"
proof (induction s arbitrary: d)
  case Nil
  then show ?case by (simp add: apply_set_def)
next
  case (Cons p s)
  obtain k v where p: "p = (k, v)" by (cases p)
  have "apply_set (p # s) d = apply_set s (AList.update k v d)"
    by (simp add: apply_set_def p)
  then have "map_of (apply_set (p # s) d) = map_of (AList.update k v d) ++ map_of (rev s)"
    by (simp add: Cons.IH)
  also have "\<dots> = map_of d ++ map_of (rev (p # s))"
    by (simp add: p update_conv' fun_eq_iff map_add_def split: option.splits)
  finally show ?case .
qed

lemma map_of_rev_distinct: "distinct (map fst s) \<Longrightarrow> map_of (rev s) = map_of s"
  by (rule map_of_inject_set [THEN iffD2]) (simp_all add: rev_map [symmetric])

lemma apply_set_lookup:
  "distinct (map fst s) \<Longrightarrow>
   map_of (apply_set s d) k = (case map_of s k of None \<Rightarrow> map_of d k | Some v \<Rightarrow> Some v)"
  by (simp add: apply_set_map_of map_of_rev_distinct map_add_def)

lemma apply_set_Nil: "apply_set [] d = d"
  by (simp add: apply_set_def)

lemma apply_set_single: "apply_set [(k, v)] d = AList.update k v d"
  by (simp add: apply_set_def)

lemma apply_set_keeps:
  "k \<notin> fst ` set s \<Longrightarrow> map_of (apply_set s d) k = map_of d k"
  by (simp add: apply_set_map_of map_add_def map_of_eq_None_iff [THEN iffD2] split: option.splits)

lemma apply_set_id: "''_id'' \<notin> fst ` set s \<Longrightarrow> doc_id (apply_set s d) = doc_id d"
  by (simp add: doc_id_def apply_set_keeps)

lemma update_one_ids:
  "''_id'' \<notin> fst ` set s \<Longrightarrow> map doc_id (snd (update_one q s c)) = map doc_id c"
  by (induction c) (simp_all add: apply_set_id case_prod_unfold)

lemma update_one_length: "length (snd (update_one q s c)) = length c"
  by (induction c) (simp_all add: case_prod_unfold)

lemma update_one_miss: "find_one q c = None \<Longrightarrow> update_one q s c = (\<lparr>matched_count = 0, modified_count = 0\<rparr>, c)"
  by (induction c) (auto simp: find_one_def split: if_splits)

lemma update_one_modified:
  "modified_count (fst (update_one q s c)) =
     (case find_one q c of None \<Rightarrow> 0 | Some d \<Rightarrow> if apply_set s d = d then 0 else 1)"
  by (induction c) (simp_all add: find_one_def case_prod_unfold)

lemma update_one_unmodified:
  "modified_count (fst (update_one q s c)) = 0 \<Longrightarrow> snd (update_one q s c) = c"
  by (induction c) (auto simp: case_prod_unfold split: if_splits)

lemma update_one_find_same:
  "''_id'' \<notin> fst ` set s \<Longrightarrow>
   find_one [(''_id'', v)] (snd (update_one [(''_id'', v)] s c)) =
     map_option (apply_set s) (find_one [(''_id'', v)] c)"
  by (induction c) (simp_all add: find_one_def matches_id apply_set_id case_prod_unfold)

lemma update_one_find_other:
  "''_id'' \<notin> fst ` set s \<Longrightarrow> w \<noteq> v \<Longrightarrow>
   find_one [(''_id'', w)] (snd (update_one [(''_id'', v)] s c)) = find_one [(''_id'', w)] c"
  by (induction c) (auto simp: find_one_def matches_id apply_set_id case_prod_unfold)

lemma unique_ids_update_one:
  "''_id'' \<notin> fst ` set s \<Longrightarrow> unique_ids (snd (update_one q s c)) = unique_ids c"
proof -
  assume s: "''_id'' \<notin> fst ` set s"
  have "list_all (\<lambda>d. doc_id d \<noteq> None) xs = list_all (\<lambda>x. x \<noteq> None) (map doc_id xs)" for xs
    by (simp add: list_all_iff)
  then show ?thesis
    by (simp add: unique_ids_def update_one_ids [OF s])
qed

section \<open>Facts about the update handler\<close>

lemma jsonable_encoder_keys: "map fst (jsonable_encoder d) = map fst d"
  by (simp add: jsonable_encoder_def case_prod_unfold)

lemma update_fields_keys:
  "distinct (map fst (update_fields note)) \<and>
   set (map fst (update_fields note)) \<subseteq> {''created'', ''updated'', ''text'', ''author'', ''in_trash''}"
proof -
  let ?d = "dict_UpdateNoteModel note"
  have keys: "map fst ?d = [''created'', ''updated'', ''text'', ''author'', ''in_trash'']"
    by (simp add: dict_UpdateNoteModel_def)
  then have "distinct (map fst ?d)" by simp
  then have "distinct (map fst (filter (\<lambda>(k, v). v \<noteq> PyNone) ?d))"
    by (rule distinct_map_filter)
  moreover have "set (map fst (filter (\<lambda>(k, v). v \<noteq> PyNone) ?d)) \<subseteq> set (map fst ?d)"
    by auto
  ultimately show ?thesis
    unfolding update_fields_def jsonable_encoder_keys keys by simp
qed

lemma update_fields_no_id: "''_id'' \<notin> fst ` set (update_fields note)"
  using update_fields_keys [of "note"] by auto

lemma update_fields_created:
  "map_of (update_fields note) ''created'' = map_option JStr (u_created note)"
  by (simp add: update_fields_def jsonable_encoder_def dict_UpdateNoteModel_def py_optional_def
      split: option.split)

lemma update_fields_updated:
  "map_of (update_fields note) ''updated'' = map_option JStr (u_updated note)"
  by (simp add: update_fields_def jsonable_encoder_def dict_UpdateNoteModel_def py_optional_def
      split: option.split)

lemma update_fields_text:
  "map_of (update_fields note) ''text'' = map_option JStr (u_text note)"
  by (simp add: update_fields_def jsonable_encoder_def dict_UpdateNoteModel_def py_optional_def
      split: option.split)

lemma update_fields_author:
  "map_of (update_fields note) ''author'' = map_option JStr (u_author note)"
  by (simp add: update_fields_def jsonable_encoder_def dict_UpdateNoteModel_def py_optional_def
      split: option.split)

lemma update_fields_in_trash:
  "map_of (update_fields note) ''in_trash'' = map_option JBool (u_in_trash note)"
  by (simp add: update_fields_def jsonable_encoder_def dict_UpdateNoteModel_def py_optional_def
      split: option.split)

lemma update_fields_other:
  "k \<notin> {''created'', ''updated'', ''text'', ''author'', ''in_trash''} \<Longrightarrow>
   map_of (update_fields note) k = None"
  using update_fields_keys [of "note"] by (auto simp: map_of_eq_None_iff)

lemma update_fields_empty:
  "(update_fields note = []) =
   (u_created note = None \<and> u_updated note = None \<and> u_text note = None \<and>
    u_author note = None \<and> u_in_trash note = None)"
  by (simp add: update_fields_def jsonable_encoder_def dict_UpdateNoteModel_def py_optional_def
      split: option.split)

lemma update_fields_no_null: "(k, JNull) \<notin> set (update_fields note)"
proof
  assume "(k, JNull) \<in> set (update_fields note)"
  then obtain v where "v \<noteq> PyNone" and "jsonable_encoder_value v = JNull"
    by (auto simp: update_fields_def jsonable_encoder_def)
  then show False by (cases v) simp_all
qed

text \<open>What \<^verbatim>\<open>update_note\<close> answers and leaves behind, over all its paths.\<close>

lemma update_note_result:
  "update_note i note db =
     (case find_one [(''_id'', JStr i)] db of
        None \<Rightarrow> (Inl (not_found i), db)
      | Some d \<Rightarrow> (Inr (JSONResponse 200 (Note (apply_set (update_fields note) d))),
                   snd (update_one [(''_id'', JStr i)] (update_fields note) db)))"
proof -
  let ?q = "[(''_id'', JStr i)]" and ?s = "update_fields note"
  let ?db' = "snd (update_one ?q ?s db)"
  note noid = update_fields_no_id [of "note"]
  show ?thesis
  proof (cases "find_one ?q db")
    case None
    then show ?thesis
      by (simp add: update_note_def Let_def existing_note_def update_one_miss)
  next
    case (Some d)
    have after: "find_one ?q ?db' = Some (apply_set ?s d)"
      by (simp add: update_one_find_same [OF noid] Some)
    show ?thesis
    proof (cases "?s = []")
      case True
      then show ?thesis
        by (simp add: update_note_def Let_def existing_note_def Some apply_set_Nil update_one_unmodified update_one_modified)
    next
      case False
      then have len: "1 \<le> length ?s" by (cases ?s) simp_all
      show ?thesis
      proof (cases "apply_set ?s d = d")
        case True
        then have "modified_count (fst (update_one ?q ?s db)) = 0"
          by (simp add: update_one_modified Some)
        then have same: "?db' = db" and "modified_count (fst (update_one ?q ?s db)) \<noteq> 1"
          by (simp_all add: update_one_unmodified)
        then show ?thesis
          using len True by (simp add: update_note_def Let_def existing_note_def Some case_prod_unfold)
      next
        case False
        then have "modified_count (fst (update_one ?q ?s db)) = 1"
          by (simp add: update_one_modified Some)
        then show ?thesis
          using len after by (simp add: update_note_def Let_def Some case_prod_unfold)
      qed
    qed
  qed
qed

lemma update_fields_text_only: "update_fields (text_only t) = [(''text'', JStr t)]"
  by (simp add: update_fields_def text_only_def dict_UpdateNoteModel_def py_optional_def
      jsonable_encoder_def)

lemma update_fields_no_fields: "update_fields no_fields = []"
  by (simp add: update_fields_def no_fields_def dict_UpdateNoteModel_def py_optional_def
      jsonable_encoder_def)

lemma find_x_two_notes: "find_one [(''_id'', JStr ''x'')] two_notes = Some (sample_note ''x'' False)"
  by (simp add: find_one_def two_notes_def matches_id sample_note_id)

lemma find_z_two_notes: "find_one [(''_id'', JStr ''z'')] two_notes = None"
  by (simp add: find_one_def two_notes_def matches_id sample_note_id)

lemma optional_field_null_as_omitted: "optional_field (null_as_omitted x) = optional_field x"
  by (cases x) simp_all

lemma validate_without_nulls:
  "UpdateNoteModel_validate (without_nulls b) = UpdateNoteModel_validate b"
  by (simp add: UpdateNoteModel_validate_def without_nulls_def optional_field_null_as_omitted)

lemma validate_all_null: "UpdateNoteModel_validate all_null = no_fields"
  by (simp add: UpdateNoteModel_validate_def all_null_def no_fields_def)

lemma validate_empty_body: "UpdateNoteModel_validate empty_body = no_fields"
  by (simp add: UpdateNoteModel_validate_def empty_body_def no_fields_def)

lemma update_one_members:
  "d' \<in> set (snd (update_one q s c)) \<Longrightarrow> d' \<in> set c \<or> (\<exists>d. d \<in> set c \<and> d' = apply_set s d)"
  by (induction c) (auto simp: case_prod_unfold split: if_splits)

lemma update_note_members:
  "d' \<in> set (snd (update_note i note db)) \<Longrightarrow>
   d' \<in> set db \<or> (\<exists>d. d \<in> set db \<and> d' = apply_set (update_fields note) d)"
  by (cases "find_one [(''_id'', JStr i)] db")
    (simp_all add: update_note_result update_one_members)

lemma update_fields_keeps_null:
  assumes "map_of (apply_set (update_fields note) d) k = Some JNull"
  shows "map_of d k = Some JNull"
proof (cases "map_of (update_fields note) k")
  case None
  with assms show ?thesis
    using update_fields_keys [of "note"] by (simp add: apply_set_lookup)
next
  case (Some v)
  then have "(k, v) \<in> set (update_fields note)" by (rule map_of_SomeD)
  with update_fields_no_null [of k "note"] have "v \<noteq> JNull" by auto
  with assms Some show ?thesis
    using update_fields_keys [of "note"] by (simp add: apply_set_lookup)
qed

lemma update_note_no_fields: "update_note i no_fields db = existing_note i db"
  by (simp add: update_note_def update_fields_no_fields)

lemma existing_note_state: "snd (existing_note i db) = db"
  by (simp add: existing_note_def split: option.split)

lemma update_text_two_notes:
  "snd (update_note ''x'' (text_only ''new'') two_notes) =
     [AList.update ''text'' (JStr ''new'') (sample_note ''x'' False), sample_note ''y'' True]"
proof -
  have "snd (update_one [(''_id'', JStr ''x'')] [(''text'', JStr ''new'')] two_notes) =
      [AList.update ''text'' (JStr ''new'') (sample_note ''x'' False), sample_note ''y'' True]"
    by (simp add: two_notes_def matches_id sample_note_id apply_set_single)
  then show ?thesis
    by (simp add: update_note_result find_x_two_notes update_fields_text_only)
qed

section \<open>Facts about the trash handlers\<close>

lemma getitem_in_trash:
  "getitem (map (\<lambda>(k, v). (k, v)) (dict_UpdateNoteModel note)) ''in_trash'' =
     Inr (py_optional PyBool (u_in_trash note))"
  by (simp add: getitem_def dict_UpdateNoteModel_def)

lemma py_not_flag: "py_not (py_optional PyBool x) = (x \<noteq> Some True)"
  by (cases x) (simp_all add: py_optional_def)

lemma flag_no_id: "''_id'' \<notin> fst ` set [(''in_trash'', JBool b)]"
  by simp

lemma set_flag_result:
  "(case update_one [(''_id'', JStr i)] [(''in_trash'', JBool b)] db of
      (update_result, db') \<Rightarrow>
        (case find_one [(''_id'', JStr i)] db' of
           Some updated_note \<Rightarrow> (Inr (JSONResponse 200 (Note updated_note)), db')
         | None \<Rightarrow> (Inl (not_found i), db'))) =
   (case find_one [(''_id'', JStr i)] db of
      None \<Rightarrow> (Inl (not_found i), db)
    | Some d \<Rightarrow> (Inr (JSONResponse 200 (Note (AList.update ''in_trash'' (JBool b) d))),
                 snd (update_one [(''_id'', JStr i)] [(''in_trash'', JBool b)] db)))"
proof (cases "find_one [(''_id'', JStr i)] db")
  case None
  then show ?thesis by (simp add: update_one_miss)
next
  case (Some d)
  then show ?thesis
    by (simp add: case_prod_unfold update_one_find_same [OF flag_no_id] apply_set_single)
qed

lemma remove_note_result:
  "remove_note i note db =
     (if u_in_trash note = Some True then (Inl (not_found i), db)
      else case find_one [(''_id'', JStr i)] db of
             None \<Rightarrow> (Inl (not_found i), db)
           | Some d \<Rightarrow> (Inr (JSONResponse 200 (Note (AList.update ''in_trash'' (JBool True) d))),
                        snd (update_one [(''_id'', JStr i)] [(''in_trash'', JBool True)] db)))"
  unfolding remove_note_def Let_def getitem_in_trash
  by (simp add: py_not_flag set_flag_result)

lemma move_note_result:
  "move_note i note db =
     (if u_in_trash note = Some True then (Inl (not_found i), db)
      else case find_one [(''_id'', JStr i)] db of
             None \<Rightarrow> (Inl (not_found i), db)
           | Some d \<Rightarrow> (Inr (JSONResponse 200 (Note (AList.update ''in_trash'' (JBool False) d))),
                        snd (update_one [(''_id'', JStr i)] [(''in_trash'', JBool False)] db)))"
  unfolding move_note_def Let_def getitem_in_trash
  by (simp add: py_not_flag set_flag_result)

lemma set_flag_state:
  "find_one [(''_id'', JStr i)] db = None \<Longrightarrow>
   snd (update_one [(''_id'', JStr i)] [(''in_trash'', JBool b)] db) = db"
  by (simp add: update_one_miss)

lemma find_y_two_notes: "find_one [(''_id'', JStr ''y'')] two_notes = Some (sample_note ''y'' True)"
  by (simp add: find_one_def two_notes_def matches_id sample_note_id)

lemma no_fields_flag: "u_in_trash no_fields \<noteq> Some True"
  by (simp add: no_fields_def)

lemma validate_flag:
  "(u_in_trash (UpdateNoteModel_validate b) = Some True) = (ub_in_trash b = Value True)"
  by (cases "ub_in_trash b") (simp_all add: UpdateNoteModel_validate_def)

lemma sample_x_active: "map_of (sample_note ''x'' False) ''in_trash'' = Some (JBool False)"
  by (rule sample_note_flag)

lemma empty_body_flag: "ub_in_trash empty_body \<noteq> Value True"
  by (simp add: empty_body_def)

lemma trash_x_two_notes:
  "snd (update_one [(''_id'', JStr ''x'')] [(''in_trash'', JBool True)] two_notes) =
     [AList.update ''in_trash'' (JBool True) (sample_note ''x'' False), sample_note ''y'' True]"
  by (simp add: two_notes_def matches_id sample_note_id apply_set_single)

lemma flag_only_True: "u_in_trash (flag_only True) = Some True"
  by (simp add: flag_only_def)

lemma flag_only_False: "u_in_trash (flag_only False) \<noteq> Some True"
  by (simp add: flag_only_def)

section \<open>Facts about the listings and the create handler\<close>

lemma matches_flag: "matches [(''in_trash'', JBool b)] d = (map_of d ''in_trash'' = Some (JBool b))"
  by (simp add: matches_def)

lemma listed_all: "listed (list_all_notes db) = take 1000 (filter (matches [(''in_trash'', JBool False)]) db)"
  by (simp add: list_all_notes_def to_list_def find_docs_def)

lemma listed_deleted: "listed (list_deleted_notes db) = take 1000 (filter (matches [(''in_trash'', JBool True)]) db)"
  by (simp add: list_deleted_notes_def to_list_def find_docs_def)

lemma active_notes_length: "length (active_notes n) = n"
  by (simp add: active_notes_def)

lemma active_notes_ids:
  "map doc_id (active_notes n) = map (\<lambda>k. Some (JStr (replicate k CHR ''n''))) [0..<n]"
  by (simp add: active_notes_def sample_note_id)

lemma replicate_inj: "inj_on (\<lambda>k. Some (JStr (replicate k CHR ''n''))) A"
proof (rule inj_onI)
  fix x y :: nat
  assume "Some (JStr (replicate x CHR ''n'')) = Some (JStr (replicate y CHR ''n''))"
  then have "length (replicate x CHR ''n'') = length (replicate y CHR ''n'')" by simp
  then show "x = y" by simp
qed

lemma active_notes_distinct: "distinct (map doc_id (active_notes n))"
  unfolding active_notes_ids by (simp add: distinct_map replicate_inj)

lemma active_notes_active: "filter (matches [(''in_trash'', JBool False)]) (active_notes n) = active_notes n"
  by (simp add: active_notes_def matches_flag sample_note_flag)

lemma active_notes_trashed: "filter (matches [(''in_trash'', JBool True)]) (active_notes n) = []"
  by (simp add: active_notes_def matches_flag sample_note_flag)

lemma active_notes_stored: "stored_notes (active_notes n)"
proof -
  have "list_all (\<lambda>d. doc_id d \<noteq> None) (active_notes n)"
    by (simp add: active_notes_def list_all_iff sample_note_id)
  moreover have "list_all has_flag (active_notes n)"
    by (simp add: active_notes_def list_all_iff has_flag_def sample_note_flag)
  ultimately show ?thesis
    by (simp add: stored_notes_def unique_ids_def active_notes_distinct)
qed

lemma stored_two_notes: "stored_notes two_notes"
  using unique_ids_two_notes
  by (simp add: stored_notes_def has_flag_def two_notes_def sample_note_flag)

lemma created_default:
  "b_created b = Omitted \<Longrightarrow>
   n_created (NoteModel_validate p env b) = Some (NoteModel_created_default p)"
  by (simp add: NoteModel_validate_def)

lemma post_note_clock: "post_note p (env\<lparr>utcnow := t\<rparr>) b db = post_note p env b db"
  by (simp add: post_note_def NoteModel_validate_def split: option.split)

section \<open>The handlers keep stored states\<close>

text \<open>
  The empty collection is a stored state, and every handler that writes leaves a stored
  state a stored state: the hypotheses on the collection below hold in every state the
  service reaches.
\<close>

lemma update_one_all:
  "(\<And>d. P d \<Longrightarrow> P (apply_set s d)) \<Longrightarrow> list_all P c \<Longrightarrow> list_all P (snd (update_one q s c))"
  by (induction c) (simp_all add: case_prod_unfold)

lemma has_flag_update_fields: "has_flag d \<Longrightarrow> has_flag (apply_set (update_fields note) d)"
  using update_fields_keys [of "note"]
  by (cases "u_in_trash note")
    (simp_all add: has_flag_def apply_set_lookup update_fields_in_trash)

lemma has_flag_set_flag: "has_flag (apply_set [(''in_trash'', JBool b)] d)"
  by (cases b) (simp_all add: has_flag_def apply_set_single update_conv')

lemma stored_notes_update_one:
  assumes "stored_notes c" and "''_id'' \<notin> fst ` set s"
    and "\<And>d. has_flag d \<Longrightarrow> has_flag (apply_set s d)"
  shows "stored_notes (snd (update_one q s c))"
  using assms by (simp add: stored_notes_def unique_ids_update_one update_one_all)

lemma stored_notes_empty: "stored_notes []"
  by (simp add: stored_notes_def unique_ids_def)

lemma stored_notes_update_note: "stored_notes db \<Longrightarrow> stored_notes (snd (update_note i note db))"
  by (cases "find_one [(''_id'', JStr i)] db")
    (simp_all add: update_note_result stored_notes_update_one update_fields_no_id
      has_flag_update_fields)

lemma stored_notes_remove_note: "stored_notes db \<Longrightarrow> stored_notes (snd (remove_note i note db))"
  by (cases "find_one [(''_id'', JStr i)] db")
    (simp_all add: remove_note_result stored_notes_update_one has_flag_set_flag)

lemma stored_notes_move_note: "stored_notes db \<Longrightarrow> stored_notes (snd (move_note i note db))"
  by (cases "find_one [(''_id'', JStr i)] db")
    (simp_all add: move_note_result stored_notes_update_one has_flag_set_flag)

lemma stored_notes_delete_note: "stored_notes db \<Longrightarrow> stored_notes (snd (delete_note i db))"
proof -
  assume st: "stored_notes db"
  let ?db' = "snd (delete_one [(''_id'', JStr i)] db)"
  from st have "unique_ids ?db'"
    by (simp add: stored_notes_def unique_ids_delete_one)
  moreover from st delete_one_subset [of "[(''_id'', JStr i)]" db] have "list_all has_flag ?db'"
    by (auto simp: stored_notes_def list_all_iff)
  ultimately show ?thesis
    by (simp add: stored_notes_def delete_note_def case_prod_unfold)
qed

lemma stored_notes_create_note: "stored_notes db \<Longrightarrow> stored_notes (snd (create_note note db))"
proof -
  assume st: "stored_notes db"
  let ?d = "jsonable_encoder (dict_NoteModel note)"
  have i: "doc_id ?d = Some (JStr (n_id note))"
    by (simp add: doc_id_def jsonable_encoder_def dict_NoteModel_def)
  have f: "has_flag ?d"
    by (cases "n_in_trash note") (simp_all add: has_flag_def jsonable_encoder_def dict_NoteModel_def)
  show ?thesis
  proof (cases "find_one [(''_id'', JStr (n_id note))] db")
    case None
    with find_one_id_None [of "JStr (n_id note)" db]
    have "Some (JStr (n_id note)) \<notin> set (map doc_id db)"
      by simp
    with st i f have "stored_notes (db @ [?d])"
      by (simp add: stored_notes_def unique_ids_def)
    with None i show ?thesis
      by (simp add: create_note_def insert_one_def doc_id_def [symmetric] Let_def split: option.split)
  next
    case (Some e)
    with st i show ?thesis
      by (simp add: create_note_def insert_one_def doc_id_def [symmetric] Let_def)
  qed
qed

section \<open>Delete\<close>

text \<open>
  C7. \<^verbatim>\<open>delete_note\<close> answers 204 exactly when the store reports one deleted document,
  which is exactly when a note with the id was stored, and answers NotFound otherwise.
  On success one document is gone, and (ids being unique in the store) \<^verbatim>\<open>show_note\<close>
  on the new state answers NotFound; on failure the state is unchanged.
\<close>

theorem delete_note_removes:
  "(fst (delete_note i db) = Inr (JSONResponse 204 NoContent) \<or>
      fst (delete_note i db) = Inl (not_found i)) \<and>
   ((fst (delete_note i db) = Inr (JSONResponse 204 NoContent)) =
      (deleted_count (fst (delete_one [(''_id'', JStr i)] db)) = 1)) \<and>
   ((fst (delete_note i db) = Inr (JSONResponse 204 NoContent)) =
      (find_one [(''_id'', JStr i)] db \<noteq> None)) \<and>
   (fst (delete_note i db) = Inr (JSONResponse 204 NoContent) \<longrightarrow>
      Suc (length (snd (delete_note i db))) = length db \<and>
      (unique_ids db \<longrightarrow>
         show_note i (snd (delete_note i db)) = (Inl (not_found i), snd (delete_note i db)))) \<and>
   (fst (delete_note i db) = Inl (not_found i) \<longrightarrow> snd (delete_note i db) = db)"
proof -
  let ?q = "[(''_id'', JStr i)]"
  have res: "delete_note i db =
      (if find_one ?q db = None then Inl (not_found i) else Inr (JSONResponse 204 NoContent),
       snd (delete_one ?q db))"
    using delete_one_count [of ?q db]
    by (simp add: delete_note_def case_prod_unfold)
  have gone: "show_note i (snd (delete_one ?q db)) = (Inl (not_found i), snd (delete_one ?q db))"
    if "unique_ids db" and "find_one ?q db \<noteq> None"
  proof -
    from that(2) have "Some (JStr i) \<in> set (map doc_id db)"
      using find_one_id_None [of "JStr i" db] by simp
    moreover from that(1) have "distinct (map doc_id db)"
      by (simp add: unique_ids_def)
    ultimately have "Some (JStr i) \<notin> set (map doc_id (snd (delete_one ?q db)))"
      by (simp add: delete_one_ids)
    then have "find_one ?q (snd (delete_one ?q db)) = None"
      using find_one_id_None [of "JStr i" "snd (delete_one ?q db)"] by blast
    then show ?thesis by (simp add: show_note_def)
  qed
  have len: "Suc (length (snd (delete_one ?q db))) = length db" if "find_one ?q db \<noteq> None"
    using that delete_one_length [of ?q db] by auto
  have same: "snd (delete_one ?q db) = db" if "find_one ?q db = None"
    using that by (rule delete_one_miss)
  show ?thesis
    using gone len same by (simp add: res delete_one_count)
qed

theorem delete_note_removes_witness:
  "unique_ids two_notes \<and>
   fst (delete_note ''x'' two_notes) = Inr (JSONResponse 204 NoContent) \<and>
   snd (delete_note ''x'' two_notes) = [sample_note ''y'' True] \<and>
   show_note ''x'' (snd (delete_note ''x'' two_notes)) =
     (Inl (not_found ''x''), [sample_note ''y'' True]) \<and>
   delete_note ''z'' two_notes = (Inl (not_found ''z''), two_notes)"
proof -
  have x: "fst (delete_note ''x'' two_notes) = Inr (JSONResponse 204 NoContent)"
    by (simp add: delete_note_def two_notes_def matches_id sample_note_id)
  have y: "snd (delete_note ''x'' two_notes) = [sample_note ''y'' True]"
    by (simp add: delete_note_def two_notes_def matches_id sample_note_id)
  have z: "delete_note ''z'' two_notes = (Inl (not_found ''z''), two_notes)"
    by (simp add: delete_note_def two_notes_def matches_id sample_note_id)
  from delete_note_removes [of "''x''" two_notes] x unique_ids_two_notes
  have "show_note ''x'' (snd (delete_note ''x'' two_notes)) =
          (Inl (not_found ''x''), snd (delete_note ''x'' two_notes))"
    by blast
  with x y z unique_ids_two_notes show ?thesis by simp
qed

section \<open>Update\<close>

text \<open>
  C1. With at least one field to write, \<^verbatim>\<open>update_note\<close> applies the write: the state it
  leaves is the one \<^verbatim>\<open>update_one\<close> leaves. When the write reports no modified document,
  the handler fetches the note again and answers 200 with it, the state unchanged, or
  NotFound when there is none. The answer is NotFound exactly when no note with the id
  is stored, and 200 with a note exactly when one is.
\<close>

theorem update_note_nonempty:
  assumes "update_fields note \<noteq> []"
  shows
    "snd (update_note i note db) =
       snd (update_one [(''_id'', JStr i)] (update_fields note) db) \<and>
     (modified_count (fst (update_one [(''_id'', JStr i)] (update_fields note) db)) = 0 \<longrightarrow>
        update_note i note db =
          (case find_one [(''_id'', JStr i)] db of
             Some existing \<Rightarrow> (Inr (JSONResponse 200 (Note existing)), db)
           | None \<Rightarrow> (Inl (not_found i), db))) \<and>
     ((fst (update_note i note db) = Inl (not_found i)) =
        (find_one [(''_id'', JStr i)] db = None)) \<and>
     ((\<exists>d. fst (update_note i note db) = Inr (JSONResponse 200 (Note d))) =
        (find_one [(''_id'', JStr i)] db \<noteq> None))"
proof (cases "find_one [(''_id'', JStr i)] db")
  case None
  then show ?thesis
    by (simp add: update_note_result update_one_miss)
next
  case (Some d)
  have "apply_set (update_fields note) d = d"
    if "modified_count (fst (update_one [(''_id'', JStr i)] (update_fields note) db)) = 0"
    using that by (simp add: update_one_modified Some split: if_splits)
  then show ?thesis
    by (auto simp: update_note_result Some update_one_unmodified)
qed

theorem update_note_nonempty_witness:
  "update_fields (text_only ''hi'') \<noteq> [] \<and>
   update_note ''x'' (text_only ''hi'') two_notes =
     (Inr (JSONResponse 200 (Note (sample_note ''x'' False))), two_notes) \<and>
   update_note ''z'' (text_only ''hi'') two_notes = (Inl (not_found ''z''), two_notes)"
proof -
  have ne: "update_fields (text_only ''hi'') \<noteq> []"
    by (simp add: update_fields_text_only)
  have same: "apply_set [(''text'', JStr ''hi'')] (sample_note ''x'' False) = sample_note ''x'' False"
    by (simp add: apply_set_def sample_note_def jsonable_encoder_def dict_NoteModel_def
        py_optional_def)
  have "modified_count (fst (update_one [(''_id'', JStr ''x'')] (update_fields (text_only ''hi''))
          two_notes)) = 0"
    by (simp add: update_one_modified find_x_two_notes update_fields_text_only same)
  with update_note_nonempty [OF ne, of "''x''" two_notes]
  have x: "update_note ''x'' (text_only ''hi'') two_notes =
     (Inr (JSONResponse 200 (Note (sample_note ''x'' False))), two_notes)"
    by (simp add: find_x_two_notes)
  from update_note_nonempty [OF ne, of "''z''" two_notes]
  have "fst (update_note ''z'' (text_only ''hi'') two_notes) = Inl (not_found ''z'')"
    and "snd (update_note ''z'' (text_only ''hi'') two_notes) = two_notes"
    by (simp_all add: find_z_two_notes update_one_miss)
  then have z: "update_note ''z'' (text_only ''hi'') two_notes = (Inl (not_found ''z''), two_notes)"
    by (simp add: prod_eq_iff)
  from ne x z show ?thesis by simp
qed

text \<open>
  C4. With no field to write and a note stored under the id, \<^verbatim>\<open>update_note\<close> leaves the
  collection as it was and answers 200 with the stored note.
\<close>

theorem update_note_empty:
  assumes "update_fields note = []"
    and "find_one [(''_id'', JStr i)] db = Some existing"
  shows "update_note i note db = (Inr (JSONResponse 200 (Note existing)), db)"
  using assms by (simp add: update_note_def existing_note_def)

theorem update_note_empty_witness:
  "update_fields no_fields = [] \<and>
   find_one [(''_id'', JStr ''x'')] two_notes = Some (sample_note ''x'' False) \<and>
   update_note ''x'' no_fields two_notes =
     (Inr (JSONResponse 200 (Note (sample_note ''x'' False))), two_notes)"
  using update_note_empty [OF update_fields_no_fields find_x_two_notes]
  by (simp add: update_fields_no_fields find_x_two_notes)

text \<open>
  C5. For a stored note, \<^verbatim>\<open>update_note\<close> answers 200 with the note now stored under
  the id; each of the five fields holds the value of the body where the body gives one and
  its prior value where it does not; every other field of the note keeps its value; and
  the notes stored under other ids are what they were.
\<close>

theorem update_note_frame:
  assumes "find_one [(''_id'', JStr i)] db = Some d"
  shows
    "\<exists>d'. fst (update_note i note db) = Inr (JSONResponse 200 (Note d')) \<and>
       find_one [(''_id'', JStr i)] (snd (update_note i note db)) = Some d' \<and>
       map_of d' ''created'' =
         (case u_created note of None \<Rightarrow> map_of d ''created'' | Some t \<Rightarrow> Some (JStr t)) \<and>
       map_of d' ''updated'' =
         (case u_updated note of None \<Rightarrow> map_of d ''updated'' | Some t \<Rightarrow> Some (JStr t)) \<and>
       map_of d' ''text'' =
         (case u_text note of None \<Rightarrow> map_of d ''text'' | Some t \<Rightarrow> Some (JStr t)) \<and>
       map_of d' ''author'' =
         (case u_author note of None \<Rightarrow> map_of d ''author'' | Some a \<Rightarrow> Some (JStr a)) \<and>
       map_of d' ''in_trash'' =
         (case u_in_trash note of None \<Rightarrow> map_of d ''in_trash'' | Some b \<Rightarrow> Some (JBool b)) \<and>
       (\<forall>k. k \<notin> {''created'', ''updated'', ''text'', ''author'', ''in_trash''} \<longrightarrow>
          map_of d' k = map_of d k) \<and>
       (\<forall>j. j \<noteq> JStr i \<longrightarrow>
          find_one [(''_id'', j)] (snd (update_note i note db)) = find_one [(''_id'', j)] db)"
proof -
  let ?s = "update_fields note"
  let ?d' = "apply_set ?s d"
  note noid = update_fields_no_id [of "note"]
  have dist: "distinct (map fst ?s)"
    using update_fields_keys [of "note"] by simp
  have res: "update_note i note db =
      (Inr (JSONResponse 200 (Note ?d')), snd (update_one [(''_id'', JStr i)] ?s db))"
    by (simp add: update_note_result assms)
  have "find_one [(''_id'', JStr i)] (snd (update_note i note db)) = Some ?d'"
    by (simp add: res update_one_find_same [OF noid] assms)
  moreover have "map_of ?d' ''created'' =
      (case u_created note of None \<Rightarrow> map_of d ''created'' | Some t \<Rightarrow> Some (JStr t))"
    by (simp add: apply_set_lookup [OF dist] update_fields_created split: option.split)
  moreover have "map_of ?d' ''updated'' =
      (case u_updated note of None \<Rightarrow> map_of d ''updated'' | Some t \<Rightarrow> Some (JStr t))"
    by (simp add: apply_set_lookup [OF dist] update_fields_updated split: option.split)
  moreover have "map_of ?d' ''text'' =
      (case u_text note of None \<Rightarrow> map_of d ''text'' | Some t \<Rightarrow> Some (JStr t))"
    by (simp add: apply_set_lookup [OF dist] update_fields_text split: option.split)
  moreover have "map_of ?d' ''author'' =
      (case u_author note of None \<Rightarrow> map_of d ''author'' | Some a \<Rightarrow> Some (JStr a))"
    by (simp add: apply_set_lookup [OF dist] update_fields_author split: option.split)
  moreover have "map_of ?d' ''in_trash'' =
      (case u_in_trash note of None \<Rightarrow> map_of d ''in_trash'' | Some b \<Rightarrow> Some (JBool b))"
    by (simp add: apply_set_lookup [OF dist] update_fields_in_trash split: option.split)
  moreover have "map_of ?d' k = map_of d k"
    if "k \<notin> {''created'', ''updated'', ''text'', ''author'', ''in_trash''}" for k
    using update_fields_other [OF that, of "note"] by (simp add: apply_set_lookup [OF dist])
  moreover have "find_one [(''_id'', j)] (snd (update_note i note db)) = find_one [(''_id'', j)] db"
    if "j \<noteq> JStr i" for j
    using that by (simp add: res update_one_find_other [OF noid])
  ultimately show ?thesis
    using res by (intro exI [of _ ?d']) simp
qed

theorem update_note_frame_witness:
  "find_one [(''_id'', JStr ''x'')] two_notes = Some (sample_note ''x'' False) \<and>
   (\<exists>d'. fst (update_note ''x'' (text_only ''new'') two_notes) =
            Inr (JSONResponse 200 (Note d')) \<and>
          map_of d' ''text'' = Some (JStr ''new'') \<and>
          map_of d' ''author'' = Some (JStr ''a'') \<and>
          map_of d' ''in_trash'' = Some (JBool False) \<and>
          map_of d' ''_id'' = Some (JStr ''x''))"
proof -
  let ?d = "sample_note ''x'' False"
  have author: "map_of ?d ''author'' = Some (JStr ''a'')"
    by (simp add: sample_note_def jsonable_encoder_def dict_NoteModel_def)
  have ident: "map_of ?d ''_id'' = Some (JStr ''x'')"
    by (simp add: sample_note_def jsonable_encoder_def dict_NoteModel_def)
  have flag: "map_of ?d ''in_trash'' = Some (JBool False)"
    by (rule sample_note_flag)
  from update_note_frame [OF find_x_two_notes, of "text_only ''new''"]
  obtain d' where r: "fst (update_note ''x'' (text_only ''new'') two_notes) =
        Inr (JSONResponse 200 (Note d'))"
    and t: "map_of d' ''text'' =
        (case u_text (text_only ''new'') of None \<Rightarrow> map_of ?d ''text''
         | Some t \<Rightarrow> Some (JStr t))"
    and a: "map_of d' ''author'' =
        (case u_author (text_only ''new'') of None \<Rightarrow> map_of ?d ''author''
         | Some a \<Rightarrow> Some (JStr a))"
    and f: "map_of d' ''in_trash'' =
        (case u_in_trash (text_only ''new'') of None \<Rightarrow> map_of ?d ''in_trash''
         | Some b \<Rightarrow> Some (JBool b))"
    and k: "\<forall>k. k \<notin> {''created'', ''updated'', ''text'', ''author'', ''in_trash''} \<longrightarrow>
        map_of d' k = map_of ?d k"
    by (elim exE conjE)
  from k have i: "map_of d' ''_id'' = map_of ?d ''_id''"
    by simp
  from t have t': "map_of d' ''text'' = Some (JStr ''new'')"
    by (simp add: text_only_def)
  from a author have a': "map_of d' ''author'' = Some (JStr ''a'')"
    by (simp add: text_only_def)
  from f flag have f': "map_of d' ''in_trash'' = Some (JBool False)"
    by (simp add: text_only_def)
  from i ident have i': "map_of d' ''_id'' = Some (JStr ''x'')"
    by simp
  show ?thesis
    by (rule conjI [OF find_x_two_notes]) (rule exI [of _ d'], simp only: r t' a' f' i' simp_thms)
qed

section \<open>Trash and restore\<close>

text \<open>
  C2. When the body's \<^verbatim>\<open>in_trash\<close> is true, \<^verbatim>\<open>remove_note\<close> answers NotFound and
  leaves the collection as it was. Otherwise the state it leaves is the one the write of
  \<^verbatim>\<open>in_trash = true\<close> leaves: with no note under the id it answers NotFound and nothing
  changes; with a note under the id it answers 200 with the note now stored there, which
  is the prior note with \<^verbatim>\<open>in_trash\<close> set to true; notes under other ids are untouched.
\<close>

theorem remove_note_spec:
  "(u_in_trash note = Some True \<longrightarrow> remove_note i note db = (Inl (not_found i), db)) \<and>
   (u_in_trash note \<noteq> Some True \<longrightarrow>
      snd (remove_note i note db) =
        snd (update_one [(''_id'', JStr i)] [(''in_trash'', JBool True)] db) \<and>
      (find_one [(''_id'', JStr i)] db = None \<longrightarrow>
         remove_note i note db = (Inl (not_found i), db)) \<and>
      (\<forall>d. find_one [(''_id'', JStr i)] db = Some d \<longrightarrow>
         (\<exists>d'. fst (remove_note i note db) = Inr (JSONResponse 200 (Note d')) \<and>
               find_one [(''_id'', JStr i)] (snd (remove_note i note db)) = Some d' \<and>
               map_of d' = (map_of d)(''in_trash'' \<mapsto> JBool True))) \<and>
      (\<forall>j. j \<noteq> JStr i \<longrightarrow>
         find_one [(''_id'', j)] (snd (remove_note i note db)) = find_one [(''_id'', j)] db))"
proof (cases "u_in_trash note = Some True")
  case True
  then show ?thesis by (simp add: remove_note_result)
next
  case False
  let ?q = "[(''_id'', JStr i)]" and ?s = "[(''in_trash'', JBool True)]"
  have st: "snd (remove_note i note db) = snd (update_one ?q ?s db)"
    using False by (simp add: remove_note_result set_flag_state split: option.split)
  have miss: "remove_note i note db = (Inl (not_found i), db)" if "find_one ?q db = None"
    using False that by (simp add: remove_note_result)
  have hit: "\<exists>d'. fst (remove_note i note db) = Inr (JSONResponse 200 (Note d')) \<and>
               find_one ?q (snd (remove_note i note db)) = Some d' \<and>
               map_of d' = (map_of d)(''in_trash'' \<mapsto> JBool True)"
    if "find_one ?q db = Some d" for d
  proof -
    let ?d' = "AList.update ''in_trash'' (JBool True) d"
    have "fst (remove_note i note db) = Inr (JSONResponse 200 (Note ?d'))"
      using False that by (simp add: remove_note_result)
    moreover have "find_one ?q (snd (remove_note i note db)) = Some ?d'"
      by (simp add: st update_one_find_same [OF flag_no_id] that apply_set_single)
    moreover have "map_of ?d' = (map_of d)(''in_trash'' \<mapsto> JBool True)"
      by (rule update_conv')
    ultimately show ?thesis by (intro exI [of _ ?d'] conjI)
  qed
  have other: "find_one [(''_id'', j)] (snd (remove_note i note db)) = find_one [(''_id'', j)] db"
    if "j \<noteq> JStr i" for j
    unfolding st using that by (rule update_one_find_other [OF flag_no_id])
  show ?thesis
  proof (intro conjI impI allI)
    assume "u_in_trash note = Some True"
    with False show "remove_note i note db = (Inl (not_found i), db)" by simp
  next
    show "snd (remove_note i note db) = snd (update_one ?q ?s db)" by (rule st)
  next
    assume "find_one ?q db = None"
    then show "remove_note i note db = (Inl (not_found i), db)" by (rule miss)
  next
    fix d assume "find_one ?q db = Some d"
    then show "\<exists>d'. fst (remove_note i note db) = Inr (JSONResponse 200 (Note d')) \<and>
               find_one ?q (snd (remove_note i note db)) = Some d' \<and>
               map_of d' = (map_of d)(''in_trash'' \<mapsto> JBool True)" by (rule hit)
  next
    fix j :: json assume "j \<noteq> JStr i"
    then show "find_one [(''_id'', j)] (snd (remove_note i note db)) = find_one [(''_id'', j)] db"
      by (rule other)
  qed
qed

theorem remove_note_spec_witness:
  "remove_note ''x'' (flag_only True) two_notes = (Inl (not_found ''x''), two_notes) \<and>
   (\<exists>d'. fst (remove_note ''x'' no_fields two_notes) = Inr (JSONResponse 200 (Note d')) \<and>
         find_one [(''_id'', JStr ''x'')] (snd (remove_note ''x'' no_fields two_notes)) = Some d' \<and>
         map_of d' ''in_trash'' = Some (JBool True)) \<and>
   remove_note ''z'' no_fields two_notes = (Inl (not_found ''z''), two_notes)"
proof -
  have "u_in_trash (flag_only True) = Some True"
    by (simp add: flag_only_def)
  with remove_note_spec [of "flag_only True" "''x''" two_notes]
  have refused: "remove_note ''x'' (flag_only True) two_notes = (Inl (not_found ''x''), two_notes)"
    by (rule_tac mp [OF conjunct1])
  note x = remove_note_spec [of no_fields "''x''" two_notes, THEN conjunct2, THEN mp,
      OF no_fields_flag]
  note z = remove_note_spec [of no_fields "''z''" two_notes, THEN conjunct2, THEN mp,
      OF no_fields_flag]
  from x [THEN conjunct2, THEN conjunct2, THEN conjunct1, THEN spec, THEN mp,
      OF find_x_two_notes]
  obtain d' where "fst (remove_note ''x'' no_fields two_notes) = Inr (JSONResponse 200 (Note d'))"
    and "find_one [(''_id'', JStr ''x'')] (snd (remove_note ''x'' no_fields two_notes)) = Some d'"
    and "map_of d' = (map_of (sample_note ''x'' False))(''in_trash'' \<mapsto> JBool True)"
    by (elim exE conjE)
  then have moved: "\<exists>d'. fst (remove_note ''x'' no_fields two_notes) =
        Inr (JSONResponse 200 (Note d')) \<and>
      find_one [(''_id'', JStr ''x'')] (snd (remove_note ''x'' no_fields two_notes)) = Some d' \<and>
      map_of d' ''in_trash'' = Some (JBool True)"
    by (intro exI [of _ d']) simp
  from z [THEN conjunct2, THEN conjunct1, THEN mp, OF find_z_two_notes]
  have missing: "remove_note ''z'' no_fields two_notes = (Inl (not_found ''z''), two_notes)" .
  from refused moved missing show ?thesis by (intro conjI)
qed

text \<open>
  C3. When the body's \<^verbatim>\<open>in_trash\<close> is true, \<^verbatim>\<open>move_note\<close> answers NotFound and
  leaves the collection as it was. Otherwise the state it leaves is the one the write of
  \<^verbatim>\<open>in_trash = false\<close> leaves: with no note under the id it answers NotFound and nothing
  changes; with a note under the id it answers 200 with the note now stored there, which
  is the prior note with \<^verbatim>\<open>in_trash\<close> set to false; notes under other ids are untouched.
\<close>

theorem move_note_spec:
  "(u_in_trash note = Some True \<longrightarrow> move_note i note db = (Inl (not_found i), db)) \<and>
   (u_in_trash note \<noteq> Some True \<longrightarrow>
      snd (move_note i note db) =
        snd (update_one [(''_id'', JStr i)] [(''in_trash'', JBool False)] db) \<and>
      (find_one [(''_id'', JStr i)] db = None \<longrightarrow>
         move_note i note db = (Inl (not_found i), db)) \<and>
      (\<forall>d. find_one [(''_id'', JStr i)] db = Some d \<longrightarrow>
         (\<exists>d'. fst (move_note i note db) = Inr (JSONResponse 200 (Note d')) \<and>
               find_one [(''_id'', JStr i)] (snd (move_note i note db)) = Some d' \<and>
               map_of d' = (map_of d)(''in_trash'' \<mapsto> JBool False))) \<and>
      (\<forall>j. j \<noteq> JStr i \<longrightarrow>
         find_one [(''_id'', j)] (snd (move_note i note db)) = find_one [(''_id'', j)] db))"
proof (cases "u_in_trash note = Some True")
  case True
  then show ?thesis by (simp add: move_note_result)
next
  case False
  let ?q = "[(''_id'', JStr i)]" and ?s = "[(''in_trash'', JBool False)]"
  have st: "snd (move_note i note db) = snd (update_one ?q ?s db)"
    using False by (simp add: move_note_result set_flag_state split: option.split)
  have miss: "move_note i note db = (Inl (not_found i), db)" if "find_one ?q db = None"
    using False that by (simp add: move_note_result)
  have hit: "\<exists>d'. fst (move_note i note db) = Inr (JSONResponse 200 (Note d')) \<and>
               find_one ?q (snd (move_note i note db)) = Some d' \<and>
               map_of d' = (map_of d)(''in_trash'' \<mapsto> JBool False)"
    if "find_one ?q db = Some d" for d
  proof -
    let ?d' = "AList.update ''in_trash'' (JBool False) d"
    have "fst (move_note i note db) = Inr (JSONResponse 200 (Note ?d'))"
      using False that by (simp add: move_note_result)
    moreover have "find_one ?q (snd (move_note i note db)) = Some ?d'"
      by (simp add: st update_one_find_same [OF flag_no_id] that apply_set_single)
    moreover have "map_of ?d' = (map_of d)(''in_trash'' \<mapsto> JBool False)"
      by (rule update_conv')
    ultimately show ?thesis by (intro exI [of _ ?d'] conjI)
  qed
  have other: "find_one [(''_id'', j)] (snd (move_note i note db)) = find_one [(''_id'', j)] db"
    if "j \<noteq> JStr i" for j
    unfolding st using that by (rule update_one_find_other [OF flag_no_id])
  show ?thesis
  proof (intro conjI impI allI)
    assume "u_in_trash note = Some True"
    with False show "move_note i note db = (Inl (not_found i), db)" by simp
  next
    show "snd (move_note i note db) = snd (update_one ?q ?s db)" by (rule st)
  next
    assume "find_one ?q db = None"
    then show "move_note i note db = (Inl (not_found i), db)" by (rule miss)
  next
    fix d assume "find_one ?q db = Some d"
    then show "\<exists>d'. fst (move_note i note db) = Inr (JSONResponse 200 (Note d')) \<and>
               find_one ?q (snd (move_note i note db)) = Some d' \<and>
               map_of d' = (map_of d)(''in_trash'' \<mapsto> JBool False)" by (rule hit)
  next
    fix j :: json assume "j \<noteq> JStr i"
    then show "find_one [(''_id'', j)] (snd (move_note i note db)) = find_one [(''_id'', j)] db"
      by (rule other)
  qed
qed

theorem move_note_spec_witness:
  "move_note ''y'' (flag_only True) two_notes = (Inl (not_found ''y''), two_notes) \<and>
   (\<exists>d'. fst (move_note ''y'' no_fields two_notes) = Inr (JSONResponse 200 (Note d')) \<and>
         find_one [(''_id'', JStr ''y'')] (snd (move_note ''y'' no_fields two_notes)) = Some d' \<and>
         map_of d' ''in_trash'' = Some (JBool False)) \<and>
   move_note ''z'' no_fields two_notes = (Inl (not_found ''z''), two_notes)"
proof -
  have "u_in_trash (flag_only True) = Some True"
    by (simp add: flag_only_def)
  with move_note_spec [of "flag_only True" "''y''" two_notes]
  have refused: "move_note ''y'' (flag_only True) two_notes = (Inl (not_found ''y''), two_notes)"
    by (rule_tac mp [OF conjunct1])
  note x = move_note_spec [of no_fields "''y''" two_notes, THEN conjunct2, THEN mp,
      OF no_fields_flag]
  note z = move_note_spec [of no_fields "''z''" two_notes, THEN conjunct2, THEN mp,
      OF no_fields_flag]
  from x [THEN conjunct2, THEN conjunct2, THEN conjunct1, THEN spec, THEN mp,
      OF find_y_two_notes]
  obtain d' where "fst (move_note ''y'' no_fields two_notes) = Inr (JSONResponse 200 (Note d'))"
    and "find_one [(''_id'', JStr ''y'')] (snd (move_note ''y'' no_fields two_notes)) = Some d'"
    and "map_of d' = (map_of (sample_note ''y'' True))(''in_trash'' \<mapsto> JBool False)"
    by (elim exE conjE)
  then have moved: "\<exists>d'. fst (move_note ''y'' no_fields two_notes) =
        Inr (JSONResponse 200 (Note d')) \<and>
      find_one [(''_id'', JStr ''y'')] (snd (move_note ''y'' no_fields two_notes)) = Some d' \<and>
      map_of d' ''in_trash'' = Some (JBool False)"
    by (intro exI [of _ d']) simp
  from z [THEN conjunct2, THEN conjunct1, THEN mp, OF find_z_two_notes]
  have missing: "move_note ''z'' no_fields two_notes = (Inl (not_found ''z''), two_notes)" .
  from refused moved missing show ?thesis by (intro conjI)
qed

text \<open>
  C10. The guard of \<^verbatim>\<open>remove_note\<close> looks at the body only. A body whose flag is true
  is refused with NotFound and nothing is written, whatever the stored note holds. A body
  whose flag is false, left out or \<^verbatim>\<open>null\<close> proceeds with the write for any stored note,
  active or trashed: the answer is 200 with the stored note with \<^verbatim>\<open>in_trash\<close> set to
  true, the state left is the one the write leaves, and the note is stored so under the
  id. For a note whose stored \<^verbatim>\<open>in_trash\<close> is already true that answer is the note as it
  is, with the collection unchanged; and a second call on the state the first one left
  gives the same answer and the same state. A body that leaves \<^verbatim>\<open>in_trash\<close> out or
  gives it as \<^verbatim>\<open>null\<close> is answered exactly as one that gives \<^verbatim>\<open>false\<close>.
\<close>

theorem remove_note_guard_on_body:
  "(u_in_trash note = Some True \<longrightarrow> remove_note i note db = (Inl (not_found i), db)) \<and>
   (ub_in_trash b = Value True \<longrightarrow> put_to_trash i b db = (Inl (not_found i), db)) \<and>
   (u_in_trash note \<noteq> Some True \<and> find_one [(''_id'', JStr i)] db = Some d \<longrightarrow>
      remove_note i note db =
        (Inr (JSONResponse 200 (Note (AList.update ''in_trash'' (JBool True) d))),
         snd (update_one [(''_id'', JStr i)] [(''in_trash'', JBool True)] db)) \<and>
      find_one [(''_id'', JStr i)] (snd (remove_note i note db)) =
        Some (AList.update ''in_trash'' (JBool True) d) \<and>
      map_of (AList.update ''in_trash'' (JBool True) d) = (map_of d)(''in_trash'' \<mapsto> JBool True)) \<and>
   (ub_in_trash b \<noteq> Value True \<and> find_one [(''_id'', JStr i)] db = Some d \<longrightarrow>
      put_to_trash i b db =
        (Inr (JSONResponse 200 (Note (AList.update ''in_trash'' (JBool True) d))),
         snd (update_one [(''_id'', JStr i)] [(''in_trash'', JBool True)] db)) \<and>
      find_one [(''_id'', JStr i)] (snd (put_to_trash i b db)) =
        Some (AList.update ''in_trash'' (JBool True) d)) \<and>
   (u_in_trash note \<noteq> Some True \<and> find_one [(''_id'', JStr i)] db = Some d \<and>
      map_of d ''in_trash'' = Some (JBool True) \<longrightarrow>
      remove_note i note db = (Inr (JSONResponse 200 (Note d)), db)) \<and>
   (u_in_trash note \<noteq> Some True \<and> u_in_trash note' \<noteq> Some True \<longrightarrow>
      remove_note i note' (snd (remove_note i note db)) = remove_note i note db) \<and>
   put_to_trash i (b\<lparr>ub_in_trash := Omitted\<rparr>) db =
     put_to_trash i (b\<lparr>ub_in_trash := Value False\<rparr>) db \<and>
   put_to_trash i (b\<lparr>ub_in_trash := Null\<rparr>) db =
     put_to_trash i (b\<lparr>ub_in_trash := Value False\<rparr>) db"
proof -
  let ?q = "[(''_id'', JStr i)]" and ?s = "[(''in_trash'', JBool True)]"
  have refuse: "remove_note i n db = (Inl (not_found i), db)" if "u_in_trash n = Some True" for n
    using that by (simp add: remove_note_result)
  have proceeds: "remove_note i n db =
        (Inr (JSONResponse 200 (Note (AList.update ''in_trash'' (JBool True) d))),
         snd (update_one ?q ?s db)) \<and>
      find_one ?q (snd (remove_note i n db)) = Some (AList.update ''in_trash'' (JBool True) d)"
    if "u_in_trash n \<noteq> Some True" and "find_one ?q db = Some d" for n
    using that
    by (simp add: remove_note_result update_one_find_same [OF flag_no_id] apply_set_single)
  have kept: "snd (update_one ?q ?s c) = c \<and> AList.update ''in_trash'' (JBool True) e = e"
    if "find_one ?q c = Some e" and "map_of e ''in_trash'' = Some (JBool True)" for c e
  proof -
    from that(2) have e: "AList.update ''in_trash'' (JBool True) e = e"
      by (rule update_triv)
    then have "modified_count (fst (update_one ?q ?s c)) = 0"
      by (simp add: update_one_modified that(1) apply_set_single)
    then have "snd (update_one ?q ?s c) = c"
      by (rule update_one_unmodified)
    with e show ?thesis by simp
  qed
  have a: "remove_note i note db = (Inr (JSONResponse 200 (Note d)), db)"
    if "u_in_trash note \<noteq> Some True" and "find_one ?q db = Some d"
      and "map_of d ''in_trash'' = Some (JBool True)"
    using that(1,2) kept [OF that(2,3)] by (simp add: remove_note_result)
  have b: "remove_note i note' (snd (remove_note i note db)) = remove_note i note db"
    if n: "u_in_trash note \<noteq> Some True" and n': "u_in_trash note' \<noteq> Some True"
  proof (cases "find_one ?q db")
    case None
    with n n' show ?thesis by (simp add: remove_note_result)
  next
    case (Some e)
    let ?e' = "AList.update ''in_trash'' (JBool True) e"
    let ?db' = "snd (update_one ?q ?s db)"
    have first: "remove_note i note db = (Inr (JSONResponse 200 (Note ?e')), ?db')"
      using n Some by (simp add: remove_note_result)
    have found: "find_one ?q ?db' = Some ?e'"
      by (simp add: update_one_find_same [OF flag_no_id] Some apply_set_single)
    have "map_of ?e' ''in_trash'' = Some (JBool True)"
      by (simp add: update_conv')
    from kept [OF found this] n' found show ?thesis
      unfolding first snd_conv by (simp add: remove_note_result)
  qed
  have c: "put_to_trash i (b\<lparr>ub_in_trash := Omitted\<rparr>) db =
      put_to_trash i (b\<lparr>ub_in_trash := Value False\<rparr>) db"
    by (simp add: put_to_trash_def remove_note_result UpdateNoteModel_validate_def)
  have d: "put_to_trash i (b\<lparr>ub_in_trash := Null\<rparr>) db =
      put_to_trash i (b\<lparr>ub_in_trash := Value False\<rparr>) db"
    by (simp add: put_to_trash_def remove_note_result UpdateNoteModel_validate_def)
  show ?thesis
  proof (intro conjI impI)
    assume "u_in_trash note = Some True"
    then show "remove_note i note db = (Inl (not_found i), db)" by (rule refuse)
  next
    assume "ub_in_trash b = Value True"
    then have "u_in_trash (UpdateNoteModel_validate b) = Some True"
      by (simp add: validate_flag)
    then show "put_to_trash i b db = (Inl (not_found i), db)"
      unfolding put_to_trash_def by (rule refuse)
  next
    assume h: "u_in_trash note \<noteq> Some True \<and> find_one ?q db = Some d"
    from proceeds [OF h [THEN conjunct1] h [THEN conjunct2]]
    show "remove_note i note db =
        (Inr (JSONResponse 200 (Note (AList.update ''in_trash'' (JBool True) d))),
         snd (update_one ?q ?s db))" by (rule conjunct1)
  next
    assume h: "u_in_trash note \<noteq> Some True \<and> find_one ?q db = Some d"
    from proceeds [OF h [THEN conjunct1] h [THEN conjunct2]]
    show "find_one ?q (snd (remove_note i note db)) =
        Some (AList.update ''in_trash'' (JBool True) d)" by (rule conjunct2)
  next
    show "map_of (AList.update ''in_trash'' (JBool True) d) = (map_of d)(''in_trash'' \<mapsto> JBool True)"
      by (rule update_conv')
  next
    assume h: "ub_in_trash b \<noteq> Value True \<and> find_one ?q db = Some d"
    then have "u_in_trash (UpdateNoteModel_validate b) \<noteq> Some True"
      by (simp add: validate_flag)
    from proceeds [OF this h [THEN conjunct2]]
    show "put_to_trash i b db =
        (Inr (JSONResponse 200 (Note (AList.update ''in_trash'' (JBool True) d))),
         snd (update_one ?q ?s db))"
      unfolding put_to_trash_def by (rule conjunct1)
  next
    assume h: "ub_in_trash b \<noteq> Value True \<and> find_one ?q db = Some d"
    then have "u_in_trash (UpdateNoteModel_validate b) \<noteq> Some True"
      by (simp add: validate_flag)
    from proceeds [OF this h [THEN conjunct2]]
    show "find_one ?q (snd (put_to_trash i b db)) =
        Some (AList.update ''in_trash'' (JBool True) d)"
      unfolding put_to_trash_def by (rule conjunct2)
  next
    assume "u_in_trash note \<noteq> Some True \<and> find_one ?q db = Some d \<and>
      map_of d ''in_trash'' = Some (JBool True)"
    then show "remove_note i note db = (Inr (JSONResponse 200 (Note d)), db)"
      using a by simp
  next
    assume "u_in_trash note \<noteq> Some True \<and> u_in_trash note' \<noteq> Some True"
    then show "remove_note i note' (snd (remove_note i note db)) = remove_note i note db"
      using b by simp
  next
    show "put_to_trash i (b\<lparr>ub_in_trash := Omitted\<rparr>) db =
      put_to_trash i (b\<lparr>ub_in_trash := Value False\<rparr>) db" by (rule c)
  next
    show "put_to_trash i (b\<lparr>ub_in_trash := Null\<rparr>) db =
      put_to_trash i (b\<lparr>ub_in_trash := Value False\<rparr>) db" by (rule d)
  qed
qed

theorem remove_note_guard_on_body_witness:
  "map_of (sample_note ''x'' False) ''in_trash'' = Some (JBool False) \<and>
   put_to_trash ''x'' empty_body two_notes =
     (Inr (JSONResponse 200
        (Note (AList.update ''in_trash'' (JBool True) (sample_note ''x'' False)))),
      [AList.update ''in_trash'' (JBool True) (sample_note ''x'' False), sample_note ''y'' True]) \<and>
   remove_note ''x'' no_fields two_notes =
     (Inr (JSONResponse 200
        (Note (AList.update ''in_trash'' (JBool True) (sample_note ''x'' False)))),
      [AList.update ''in_trash'' (JBool True) (sample_note ''x'' False), sample_note ''y'' True]) \<and>
   find_one [(''_id'', JStr ''x'')] (snd (remove_note ''x'' no_fields two_notes)) =
     Some (AList.update ''in_trash'' (JBool True) (sample_note ''x'' False)) \<and>
   map_of (AList.update ''in_trash'' (JBool True) (sample_note ''x'' False)) ''in_trash'' =
     Some (JBool True) \<and>
   remove_note ''x'' (flag_only True) two_notes = (Inl (not_found ''x''), two_notes) \<and>
   remove_note ''y'' (flag_only True) two_notes = (Inl (not_found ''y''), two_notes) \<and>
   remove_note ''y'' no_fields two_notes =
     (Inr (JSONResponse 200 (Note (sample_note ''y'' True))), two_notes) \<and>
   remove_note ''y'' (flag_only False) (snd (remove_note ''y'' no_fields two_notes)) =
     remove_note ''y'' no_fields two_notes"
proof -
  let ?x' = "AList.update ''in_trash'' (JBool True) (sample_note ''x'' False)"
  note gx = remove_note_guard_on_body [of no_fields "''x''" two_notes empty_body
      "sample_note ''x'' False" "flag_only False"]
  note gy = remove_note_guard_on_body [of no_fields "''y''" two_notes empty_body
      "sample_note ''y'' True" "flag_only False"]
  note tx = remove_note_guard_on_body [of "flag_only True" "''x''" two_notes empty_body
      "sample_note ''x'' False" "flag_only False"]
  note ty = remove_note_guard_on_body [of "flag_only True" "''y''" two_notes empty_body
      "sample_note ''y'' True" "flag_only False"]
  note model = gx [THEN conjunct2, THEN conjunct2, THEN conjunct1, THEN mp, OF conjI,
      OF no_fields_flag find_x_two_notes]
  note body = gx [THEN conjunct2, THEN conjunct2, THEN conjunct2, THEN conjunct1, THEN mp,
      OF conjI, OF empty_body_flag find_x_two_notes]
  have active: "map_of (sample_note ''x'' False) ''in_trash'' = Some (JBool False)"
    by (rule sample_x_active)
  from body [THEN conjunct1]
  have b1: "put_to_trash ''x'' empty_body two_notes =
      (Inr (JSONResponse 200 (Note ?x')), [?x', sample_note ''y'' True])"
    by (simp only: trash_x_two_notes)
  from model [THEN conjunct1]
  have m1: "remove_note ''x'' no_fields two_notes =
      (Inr (JSONResponse 200 (Note ?x')), [?x', sample_note ''y'' True])"
    by (simp only: trash_x_two_notes)
  from model [THEN conjunct2, THEN conjunct1]
  have m2: "find_one [(''_id'', JStr ''x'')] (snd (remove_note ''x'' no_fields two_notes)) =
      Some ?x'" .
  from model [THEN conjunct2, THEN conjunct2]
  have m3: "map_of ?x' ''in_trash'' = Some (JBool True)"
    by simp
  from tx [THEN conjunct1, THEN mp, OF flag_only_True]
  have r1: "remove_note ''x'' (flag_only True) two_notes = (Inl (not_found ''x''), two_notes)" .
  from ty [THEN conjunct1, THEN mp, OF flag_only_True]
  have r2: "remove_note ''y'' (flag_only True) two_notes = (Inl (not_found ''y''), two_notes)" .
  from gy [THEN conjunct2, THEN conjunct2, THEN conjunct2, THEN conjunct2, THEN conjunct1,
      THEN mp, OF conjI, OF no_fields_flag conjI, OF find_y_two_notes sample_note_flag]
  have one: "remove_note ''y'' no_fields two_notes =
     (Inr (JSONResponse 200 (Note (sample_note ''y'' True))), two_notes)" .
  from gy [THEN conjunct2, THEN conjunct2, THEN conjunct2, THEN conjunct2, THEN conjunct2,
      THEN conjunct1, THEN mp, OF conjI, OF no_fields_flag flag_only_False]
  have two: "remove_note ''y'' (flag_only False) (snd (remove_note ''y'' no_fields two_notes)) =
     remove_note ''y'' no_fields two_notes" .
  from active b1 m1 m2 m3 r1 r2 one two show ?thesis by (intro conjI)
qed

section \<open>Null fields of an update\<close>

text \<open>
  C9. The fields \<^verbatim>\<open>update_note\<close> writes never hold \<^verbatim>\<open>null\<close>: a field given as
  \<^verbatim>\<open>null\<close> is dropped with the fields left out, so a body answers as the same body
  with its \<^verbatim>\<open>null\<close> fields left out. A field of a note that is \<^verbatim>\<open>null\<close> after an
  update was \<^verbatim>\<open>null\<close> in the note of that id before it. The body of nothing but
  \<^verbatim>\<open>null\<close>s answers as the empty body and changes nothing.
\<close>

theorem update_note_null_as_absent:
  "(\<forall>k. (k, JNull) \<notin> set (update_fields note)) \<and>
   put_note i b db = put_note i (without_nulls b) db \<and>
   (\<forall>d' k. d' \<in> set (snd (update_note i note db)) \<and> map_of d' k = Some JNull \<longrightarrow>
      (\<exists>d. d \<in> set db \<and> doc_id d = doc_id d' \<and> map_of d k = Some JNull)) \<and>
   put_note i all_null db = put_note i empty_body db \<and>
   snd (put_note i all_null db) = db"
proof (intro conjI allI impI)
  fix k show "(k, JNull) \<notin> set (update_fields note)"
    by (rule update_fields_no_null)
next
  show "put_note i b db = put_note i (without_nulls b) db"
    by (simp add: put_note_def validate_without_nulls)
next
  fix d' k
  assume h: "d' \<in> set (snd (update_note i note db)) \<and> map_of d' k = Some JNull"
  then have null: "map_of d' k = Some JNull" by simp
  from h [THEN conjunct1]
  have "d' \<in> set db \<or> (\<exists>d. d \<in> set db \<and> d' = apply_set (update_fields note) d)"
    by (rule update_note_members)
  then show "\<exists>d. d \<in> set db \<and> doc_id d = doc_id d' \<and> map_of d k = Some JNull"
  proof
    assume "d' \<in> set db"
    with null show ?thesis by (intro exI [of _ d']) simp
  next
    assume "\<exists>d. d \<in> set db \<and> d' = apply_set (update_fields note) d"
    then obtain d where d: "d \<in> set db" and d': "d' = apply_set (update_fields note) d"
      by (elim exE conjE)
    from null have "map_of d k = Some JNull"
      unfolding d' by (rule update_fields_keeps_null)
    moreover have "doc_id d = doc_id d'"
      unfolding d' by (simp add: apply_set_id update_fields_no_id)
    ultimately show ?thesis using d by (intro exI [of _ d]) simp
  qed
next
  show "put_note i all_null db = put_note i empty_body db"
    by (simp add: put_note_def validate_all_null validate_empty_body)
next
  show "snd (put_note i all_null db) = db"
    by (simp add: put_note_def validate_all_null update_note_no_fields existing_note_state)
qed

theorem update_note_null_as_absent_witness:
  "AList.update ''text'' (JStr ''new'') (sample_note ''x'' False)
     \<in> set (snd (update_note ''x'' (text_only ''new'') two_notes)) \<and>
   map_of (AList.update ''text'' (JStr ''new'') (sample_note ''x'' False)) ''updated'' =
     Some JNull \<and>
   (\<exists>d. d \<in> set two_notes \<and>
        doc_id d = doc_id (AList.update ''text'' (JStr ''new'') (sample_note ''x'' False)) \<and>
        map_of d ''updated'' = Some JNull) \<and>
   put_note ''x'' all_null two_notes =
     (Inr (JSONResponse 200 (Note (sample_note ''x'' False))), two_notes)"
proof -
  let ?d' = "AList.update ''text'' (JStr ''new'') (sample_note ''x'' False)"
  have m: "?d' \<in> set (snd (update_note ''x'' (text_only ''new'') two_notes))"
    by (simp add: update_text_two_notes)
  have n: "map_of ?d' ''updated'' = Some JNull"
    by (simp add: update_conv' sample_note_def jsonable_encoder_def dict_NoteModel_def
        py_optional_def)
  note t = update_note_null_as_absent [of "text_only ''new''" "''x''" all_null two_notes]
  from t [THEN conjunct2, THEN conjunct2, THEN conjunct1, THEN spec, THEN spec, THEN mp,
      OF conjI, OF m n]
  have e: "\<exists>d. d \<in> set two_notes \<and> doc_id d = doc_id ?d' \<and> map_of d ''updated'' = Some JNull" .
  have "fst (put_note ''x'' all_null two_notes) =
      Inr (JSONResponse 200 (Note (sample_note ''x'' False)))"
    by (simp add: put_note_def validate_all_null update_note_no_fields existing_note_def
        find_x_two_notes)
  with t [THEN conjunct2, THEN conjunct2, THEN conjunct2, THEN conjunct2]
  have p: "put_note ''x'' all_null two_notes =
     (Inr (JSONResponse 200 (Note (sample_note ''x'' False))), two_notes)"
    by (simp add: prod_eq_iff)
  from m n e p show ?thesis by (intro conjI)
qed

section \<open>Listings\<close>

text \<open>
  C6, as the claim states it, fails: 1001 active notes are a stored state, and the two
  listings together hold at most 1000 of their 1001 ids.
\<close>

theorem listings_union_counterexample:
  "stored_notes many_notes \<and>
   ids (listed (list_all_notes many_notes)) \<union> ids (listed (list_deleted_notes many_notes)) \<noteq>
     ids many_notes"
proof -
  let ?l = "ids (listed (list_all_notes many_notes)) \<union> ids (listed (list_deleted_notes many_notes))"
  have l: "?l = set (map doc_id (take 1000 many_notes))"
    by (simp add: ids_def listed_all listed_deleted many_notes_def active_notes_active
        active_notes_trashed)
  have "card (set (map doc_id (take 1000 many_notes))) \<le> length (map doc_id (take 1000 many_notes))"
    by (rule card_length)
  also have "\<dots> = 1000"
    by (simp add: many_notes_def active_notes_length)
  finally have small: "card ?l \<le> 1000" unfolding l .
  have "card (ids many_notes) = length (map doc_id many_notes)"
    unfolding ids_def many_notes_def by (rule distinct_card) (rule active_notes_distinct)
  then have big: "card (ids many_notes) = 1001"
    by (simp add: many_notes_def active_notes_length)
  from small big have "?l \<noteq> ids many_notes" by auto
  moreover have "stored_notes many_notes"
    unfolding many_notes_def by (rule active_notes_stored)
  ultimately show ?thesis by simp
qed

text \<open>
  C6, amended. In a stored state both listings answer 200 and leave the state as it was;
  \<^verbatim>\<open>list_all_notes\<close> lists only stored notes with \<^verbatim>\<open>in_trash\<close> false and
  \<^verbatim>\<open>list_deleted_notes\<close> only stored notes with \<^verbatim>\<open>in_trash\<close> true, each at most 1000
  of them; no id is in both listings; and when at most 1000 active and at most 1000
  trashed notes are stored, the ids of the two listings together are the ids of all
  stored notes.
\<close>

theorem listings_partition:
  assumes "stored_notes db"
  shows
    "snd (list_all_notes db) = db \<and> snd (list_deleted_notes db) = db \<and>
     fst (list_all_notes db) = Inr (JSONResponse 200 (Notes (listed (list_all_notes db)))) \<and>
     fst (list_deleted_notes db) = Inr (JSONResponse 200 (Notes (listed (list_deleted_notes db)))) \<and>
     list_all (\<lambda>d. map_of d ''in_trash'' = Some (JBool False)) (listed (list_all_notes db)) \<and>
     list_all (\<lambda>d. map_of d ''in_trash'' = Some (JBool True)) (listed (list_deleted_notes db)) \<and>
     length (listed (list_all_notes db)) \<le> 1000 \<and>
     length (listed (list_deleted_notes db)) \<le> 1000 \<and>
     set (listed (list_all_notes db)) \<subseteq> set db \<and>
     set (listed (list_deleted_notes db)) \<subseteq> set db \<and>
     ids (listed (list_all_notes db)) \<inter> ids (listed (list_deleted_notes db)) = {} \<and>
     (length (find_docs [(''in_trash'', JBool False)] db) \<le> 1000 \<and>
      length (find_docs [(''in_trash'', JBool True)] db) \<le> 1000 \<longrightarrow>
        ids (listed (list_all_notes db)) \<union> ids (listed (list_deleted_notes db)) = ids db)"
proof -
  let ?A = "filter (matches [(''in_trash'', JBool False)]) db"
  let ?T = "filter (matches [(''in_trash'', JBool True)]) db"
  have sub_a: "set (take 1000 ?A) \<subseteq> set ?A" and sub_t: "set (take 1000 ?T) \<subseteq> set ?T"
    by (rule set_take_subset)+
  have act: "list_all (\<lambda>d. map_of d ''in_trash'' = Some (JBool False)) (take 1000 ?A)"
    using sub_a by (auto simp: list_all_iff matches_flag)
  have tra: "list_all (\<lambda>d. map_of d ''in_trash'' = Some (JBool True)) (take 1000 ?T)"
    using sub_t by (auto simp: list_all_iff matches_flag)
  have in_a: "set (take 1000 ?A) \<subseteq> set db" and in_t: "set (take 1000 ?T) \<subseteq> set db"
    using sub_a sub_t by auto
  from assms have inj: "inj_on doc_id (set db)"
    by (simp add: stored_notes_def unique_ids_def distinct_map)
  have disj: "ids (take 1000 ?A) \<inter> ids (take 1000 ?T) = {}"
  proof (rule ccontr)
    assume "ids (take 1000 ?A) \<inter> ids (take 1000 ?T) \<noteq> {}"
    then obtain a t where a: "a \<in> set (take 1000 ?A)" and t: "t \<in> set (take 1000 ?T)"
      and same: "doc_id a = doc_id t"
      by (auto simp: ids_def)
    from a t in_a in_t same inj have "a = t"
      by (auto dest: inj_onD)
    moreover from a sub_a have "map_of a ''in_trash'' = Some (JBool False)"
      by (auto simp: matches_flag)
    moreover from t sub_t have "map_of t ''in_trash'' = Some (JBool True)"
      by (auto simp: matches_flag)
    ultimately show False by simp
  qed
  have all: "ids (take 1000 ?A) \<union> ids (take 1000 ?T) = ids db"
    if "length ?A \<le> 1000" and "length ?T \<le> 1000"
  proof -
    from assms have "\<forall>d \<in> set db. has_flag d"
      by (simp add: stored_notes_def list_all_iff)
    then have "set ?A \<union> set ?T = set db"
      by (auto simp: has_flag_def matches_flag)
    then have "doc_id ` set ?A \<union> doc_id ` set ?T = doc_id ` set db"
      by (simp only: image_Un [symmetric])
    with that show ?thesis
      by (simp add: ids_def)
  qed
  show ?thesis
    using act tra in_a in_t disj all
    by (simp add: listed_all listed_deleted)
      (simp add: list_all_notes_def list_deleted_notes_def to_list_def find_docs_def)
qed

theorem listings_partition_witness:
  "stored_notes two_notes \<and>
   listed (list_all_notes two_notes) = [sample_note ''x'' False] \<and>
   listed (list_deleted_notes two_notes) = [sample_note ''y'' True] \<and>
   ids (listed (list_all_notes two_notes)) \<inter> ids (listed (list_deleted_notes two_notes)) = {} \<and>
   ids (listed (list_all_notes two_notes)) \<union> ids (listed (list_deleted_notes two_notes)) =
     ids two_notes"
proof -
  have a: "listed (list_all_notes two_notes) = [sample_note ''x'' False]"
    by (simp add: listed_all two_notes_def matches_flag sample_note_flag)
  have t: "listed (list_deleted_notes two_notes) = [sample_note ''y'' True]"
    by (simp add: listed_deleted two_notes_def matches_flag sample_note_flag)
  have few: "length (find_docs [(''in_trash'', JBool False)] two_notes) \<le> 1000 \<and>
      length (find_docs [(''in_trash'', JBool True)] two_notes) \<le> 1000"
    by (simp add: find_docs_def two_notes_def matches_flag sample_note_flag)
  note p = listings_partition [OF stored_two_notes]
  from p have i: "ids (listed (list_all_notes two_notes)) \<inter>
      ids (listed (list_deleted_notes two_notes)) = {}"
    by simp
  from p few have u: "ids (listed (list_all_notes two_notes)) \<union>
      ids (listed (list_deleted_notes two_notes)) = ids two_notes"
    by simp
  from stored_two_notes a t i u show ?thesis by (intro conjI)
qed

section \<open>Create\<close>

text \<open>
  C8. The module is imported at 2021-09-20T00:00:00 and a note is posted without
  \<^verbatim>\<open>created\<close> at 2021-09-21T08:30:00: the note stored and returned has the time of the
  import as its \<^verbatim>\<open>created\<close>, not the time of the request.
\<close>

theorem post_note_created_at_import:
  "post_note (import_app ''2021-09-20T00:00:00'')
     \<lparr>utcnow = ''2021-09-21T08:30:00'', new_ObjectId = ''a''\<rparr> note_body [] =
   (Inr (JSONResponse 201 (Note
      [(''_id'', JStr ''a''), (''created'', JStr ''2021-09-20T00:00:00''), (''updated'', JNull),
       (''text'', JStr ''hi''), (''author'', JStr ''a''), (''in_trash'', JBool False)])),
    [[(''_id'', JStr ''a''), (''created'', JStr ''2021-09-20T00:00:00''), (''updated'', JNull),
      (''text'', JStr ''hi''), (''author'', JStr ''a''), (''in_trash'', JBool False)]])"
  by (simp add: post_note_def create_note_def NoteModel_validate_def import_app_def note_body_def
      insert_one_def find_one_def matches_def jsonable_encoder_def dict_NoteModel_def
      py_optional_def Let_def)

end
